theory Spec2Isabelle
  imports Complex_Main "HOL-Library.Log_Nat"
begin

section \<open>Conventions of the embedding\<close>

text \<open>
  The theory embeds the classes of \<^verbatim>\<open>boisson.py\<close> and \<^verbatim>\<open>usine.py\<close>.

  \<^item> A class is a record, its fields prefixed by a letter of the class because several
    classes share field names (\<^verbatim>\<open>nom\<close>, \<^verbatim>\<open>ingredients\<close>): \<open>ing_\<close> for
    \<^verbatim>\<open>Ingredient\<close>, \<open>b_\<close> for \<^verbatim>\<open>Boisson\<close>, \<open>st_\<close> for \<^verbatim>\<open>Stock\<close>, \<open>e_\<close> for
    \<^verbatim>\<open>EtapeProduction\<close>, \<open>p_\<close> for \<^verbatim>\<open>ProcessusProduction\<close>, \<open>l_\<close> for
    \<^verbatim>\<open>LigneProduction\<close>, \<open>u_\<close> for \<^verbatim>\<open>Usine\<close>, \<open>h_\<close> for the dictionaries appended
    to \<^verbatim>\<open>historique_production\<close>.
  \<^item> A method that mutates \<^verbatim>\<open>self\<close> or an argument takes the object and returns the
    updated object next to its Python return value. Objects are values: a drink stored in
    \<^verbatim>\<open>production_actuelle\<close> or \<^verbatim>\<open>production_journaliere\<close> is the drink as it is when it
    is stored, and every position of \<^verbatim>\<open>lignes_production\<close> is a line of its own.
  \<^item> A Python \<^verbatim>\<open>float\<close> is a binary64 number, an infinity or NaN, and its arithmetic
    rounds as IEEE 754 does (type \<open>float64\<close> below). The quantities and volumes are
    floats, as the annotations of the source say.
  \<^item> A Python \<^verbatim>\<open>str\<close> is a \<open>string\<close> whose characters are the code points below 256
    (Latin-1); the e-acute of the ingredient name \<^verbatim>\<open>mineraux\<close> is \<open>CHR 0xE9\<close>.
  \<^item> A Python exception is a value \<open>Inl e\<close> of the result type \<open>erreur + 'a\<close>.
  \<^item> \<^verbatim>\<open>datetime.now()\<close> is an input: a method receives the readings of the clock it
    makes, in the order it makes them.
  \<^item> \<^verbatim>\<open>print\<close> is not modelled.
\<close>

datatype erreur = KeyError | AttributeError | ZeroDivisionError

record datetime =
  annee :: nat
  mois :: nat
  jour :: nat
  heure :: nat
  minute :: nat
  seconde :: nat
  microseconde :: nat

text \<open>The \<open>k\<close>-th reading of \<^verbatim>\<open>datetime.now()\<close> made during one call, from 0.\<close>

type_synonym horloge = "nat \<Rightarrow> datetime"

text \<open>A number in decimal, padded with zeros on the left to a fixed width.\<close>

fun chiffres :: "nat \<Rightarrow> nat \<Rightarrow> string" where
  "chiffres 0 n = []"
| "chiffres (Suc k) n = chiffres k (n div 10) @ [char_of (48 + n mod 10)]"

text \<open>\<^verbatim>\<open>t.strftime('%Y%m%d%H%M%S')\<close>, for a year of four digits.\<close>

definition strftime_YmdHMS :: "datetime \<Rightarrow> string" where
  "strftime_YmdHMS t =
     chiffres 4 (annee t) @ chiffres 2 (mois t) @ chiffres 2 (jour t)
     @ chiffres 2 (heure t) @ chiffres 2 (minute t) @ chiffres 2 (seconde t)"

text \<open>
  \<^verbatim>\<open>str.lower\<close> on Latin-1: the letters A to Z and the accented capitals from 0xC0 to
  0xDE (0xD7, the multiplication sign, is not a letter) move up by 32.
\<close>

definition lower_char :: "char \<Rightarrow> char" where
  "lower_char c =
     (let n = (of_char c :: nat) in
      if (65 \<le> n \<and> n \<le> 90) \<or> (192 \<le> n \<and> n \<le> 222 \<and> n \<noteq> 215)
      then char_of (n + 32) else c)"

definition lower :: "string \<Rightarrow> string" where
  "lower s = map lower_char s"

text \<open>\<^verbatim>\<open>sub in s\<close> on strings: \<open>sub\<close> occurs in \<open>s\<close> as a contiguous block.\<close>

fun contient :: "string \<Rightarrow> string \<Rightarrow> bool" where
  "contient [] sub = (sub = [])"
| "contient (c # s) sub = (take (length sub) (c # s) = sub \<or> contient s sub)"

text \<open>\<^verbatim>\<open>" ".join(xs)\<close>\<close>

fun join_espace :: "string list \<Rightarrow> string" where
  "join_espace [] = []"
| "join_espace [x] = x"
| "join_espace (x # y # ys) = x @ '' '' @ join_espace (y # ys)"

text \<open>\<^verbatim>\<open>d[k]\<close> read from a dictionary: \<^verbatim>\<open>KeyError\<close> when the key is missing.\<close>

definition dict_lire :: "('k \<rightharpoonup> 'v) \<Rightarrow> 'k \<Rightarrow> erreur + 'v" where
  "dict_lire d k = (case d k of None \<Rightarrow> Inl KeyError | Some v \<Rightarrow> Inr v)"


section \<open>Python floats: binary64 arithmetic\<close>

text \<open>
  A Python \<^verbatim>\<open>float\<close> is an IEEE 754 binary64 number. A finite one is held as the rational
  number it equals; the others are the two infinities and NaN. The two zeros \<^verbatim>\<open>0.0\<close> and
  \<^verbatim>\<open>-0.0\<close>, which \<^verbatim>\<open>==\<close> and every comparison take as equal, are the one value
  \<open>Fini 0\<close>.
\<close>

datatype float64 = Fini rat | PInf | MInf | NaN

text \<open>The power of two \<open>2\<^sup>e\<close> for an integer \<open>e\<close> of either sign.\<close>

definition pw2 :: "int \<Rightarrow> rat" where
  "pw2 e = (if 0 \<le> e then 2 ^ nat e else 1 / 2 ^ nat (- e))"

text \<open>
  The binary exponent of a rational other than zero: the \<open>e\<close> with
  \<open>2\<^sup>e \<le> \<bar>x\<bar> < 2\<^sup>e\<^sup>+\<^sup>1\<close>, found from the bit lengths of the numerator and the denominator.
\<close>

definition exposant :: "rat \<Rightarrow> int" where
  "exposant x =
     (case quotient_of \<bar>x\<bar> of
        (p, q) \<Rightarrow>
          (let d = bitlen p - bitlen q in if pw2 d \<le> \<bar>x\<bar> then d else d - 1))"

text \<open>
  The exponent of the last place of the binary64 numbers around \<open>x\<close>: 53 significant
  bits, and no place below \<open>2\<^sup>-\<^sup>1\<^sup>0\<^sup>7\<^sup>4\<close> (the subnormal numbers).
\<close>

definition quantum :: "rat \<Rightarrow> int" where
  "quantum x = max (exposant x - 52) (- 1074)"

text \<open>Rounding to the nearest integer, a tie going to the even one.\<close>

definition arrondi_pair :: "rat \<Rightarrow> int" where
  "arrondi_pair y =
     (let n = \<lfloor>y\<rfloor>; r = y - of_int n in
      if r < 1 / 2 then n else if 1 / 2 < r then n + 1 else if even n then n else n + 1)"

text \<open>The number of quanta that \<open>x\<close> rounds to.\<close>

definition entier :: "rat \<Rightarrow> int" where
  "entier x = arrondi_pair (x / pw2 (quantum x))"

text \<open>
  The binary64 result of an operation whose exact result is \<open>x\<close>: \<open>x\<close> rounded to the
  nearest binary64 number, a tie going to the even significand, and an infinity when the
  rounded magnitude reaches \<open>2\<^sup>1\<^sup>0\<^sup>2\<^sup>4\<close>. It is also the value of a decimal literal:
  \<^verbatim>\<open>1.2\<close> is \<open>round64 (6 / 5)\<close>.
\<close>

definition round64 :: "rat \<Rightarrow> float64" where
  "round64 x =
     (if x = 0 then Fini 0
      else
        (let r = of_int (entier x) * pw2 (quantum x) in
         if pw2 1024 \<le> \<bar>r\<bar> then (if 0 < x then PInf else MInf) else Fini r))"

text \<open>
  \<open>Fini x\<close> stands for a Python float when \<open>x\<close> is a binary64 number, that is when
  rounding leaves it as it is.
\<close>

fun valide :: "float64 \<Rightarrow> bool" where
  "valide (Fini x) = (round64 x = Fini x)"
| "valide a = True"

text \<open>\<^verbatim>\<open>a >= b\<close> and \<^verbatim>\<open>a < b\<close>: false as soon as one side is NaN.\<close>

fun float_ge :: "float64 \<Rightarrow> float64 \<Rightarrow> bool" where
  "float_ge NaN b = False"
| "float_ge a NaN = False"
| "float_ge PInf b = True"
| "float_ge a MInf = True"
| "float_ge MInf b = False"
| "float_ge a PInf = False"
| "float_ge (Fini x) (Fini y) = (y \<le> x)"

fun float_lt :: "float64 \<Rightarrow> float64 \<Rightarrow> bool" where
  "float_lt NaN b = False"
| "float_lt a NaN = False"
| "float_lt PInf b = False"
| "float_lt a MInf = False"
| "float_lt MInf b = True"
| "float_lt a PInf = True"
| "float_lt (Fini x) (Fini y) = (x < y)"

text \<open>\<^verbatim>\<open>a + b\<close>, \<^verbatim>\<open>a - b\<close> and \<^verbatim>\<open>a * b\<close>\<close>

fun float_add :: "float64 \<Rightarrow> float64 \<Rightarrow> float64" where
  "float_add NaN b = NaN"
| "float_add a NaN = NaN"
| "float_add PInf MInf = NaN"
| "float_add MInf PInf = NaN"
| "float_add PInf b = PInf"
| "float_add a PInf = PInf"
| "float_add MInf b = MInf"
| "float_add a MInf = MInf"
| "float_add (Fini x) (Fini y) = round64 (x + y)"

fun float_sub :: "float64 \<Rightarrow> float64 \<Rightarrow> float64" where
  "float_sub NaN b = NaN"
| "float_sub a NaN = NaN"
| "float_sub PInf PInf = NaN"
| "float_sub MInf MInf = NaN"
| "float_sub PInf b = PInf"
| "float_sub a MInf = PInf"
| "float_sub MInf b = MInf"
| "float_sub a PInf = MInf"
| "float_sub (Fini x) (Fini y) = round64 (x - y)"

fun float_mul :: "float64 \<Rightarrow> float64 \<Rightarrow> float64" where
  "float_mul NaN b = NaN"
| "float_mul a NaN = NaN"
| "float_mul (Fini x) (Fini y) = round64 (x * y)"
| "float_mul (Fini x) PInf = (if x = 0 then NaN else if 0 < x then PInf else MInf)"
| "float_mul (Fini x) MInf = (if x = 0 then NaN else if 0 < x then MInf else PInf)"
| "float_mul PInf (Fini y) = (if y = 0 then NaN else if 0 < y then PInf else MInf)"
| "float_mul MInf (Fini y) = (if y = 0 then NaN else if 0 < y then MInf else PInf)"
| "float_mul PInf PInf = PInf"
| "float_mul PInf MInf = MInf"
| "float_mul MInf PInf = MInf"
| "float_mul MInf MInf = PInf"

text \<open>\<^verbatim>\<open>a / b\<close>: Python raises \<^verbatim>\<open>ZeroDivisionError\<close> when the divisor is zero.\<close>

fun float_div :: "float64 \<Rightarrow> float64 \<Rightarrow> erreur + float64" where
  "float_div a (Fini y) =
     (if y = 0 then Inl ZeroDivisionError
      else Inr (case a of
                  Fini x \<Rightarrow> round64 (x / y)
                | PInf \<Rightarrow> if 0 < y then PInf else MInf
                | MInf \<Rightarrow> if 0 < y then MInf else PInf
                | NaN \<Rightarrow> NaN))"
| "float_div (Fini x) PInf = Inr (Fini 0)"
| "float_div (Fini x) MInf = Inr (Fini 0)"
| "float_div a b = Inr NaN"


section \<open>boisson.py\<close>

record ingredient =
  ing_nom :: string
  ing_quantite :: float64
  ing_unite :: string

text \<open>
  The four concrete subclasses of the abstract class \<^verbatim>\<open>Boisson\<close>, each with the field
  it adds: \<^verbatim>\<open>est_gazeuse\<close>, \<^verbatim>\<open>pourcentage_fruits\<close>, \<^verbatim>\<open>taux_sucre\<close>, \<^verbatim>\<open>taux_cafeine\<close>.
\<close>

datatype classe =
    Eau bool
  | Jus float64
  | Soda float64
  | BoissonEnergisante float64

record boisson =
  b_nom :: string
  b_volume :: float64
  b_ingredients :: "ingredient list"
  b_date_production :: "datetime option"
  b_numero_lot :: "string option"
  b_classe :: classe

text \<open>\<^verbatim>\<open>Eau(nom, volume, ingredients, est_gazeuse)\<close>\<close>

definition Eau_init :: "string \<Rightarrow> float64 \<Rightarrow> ingredient list \<Rightarrow> bool \<Rightarrow> boisson" where
  "Eau_init nom volume ingredients est_gazeuse =
     \<lparr>b_nom = nom, b_volume = volume, b_ingredients = ingredients,
      b_date_production = None, b_numero_lot = None, b_classe = Eau est_gazeuse\<rparr>"


text \<open>\<^verbatim>\<open>Boisson.definir_lot\<close>; \<open>t\<close> is its reading of the clock.\<close>

definition definir_lot :: "datetime \<Rightarrow> string \<Rightarrow> boisson \<Rightarrow> boisson" where
  "definir_lot t numero_lot b =
     b\<lparr>b_numero_lot := Some numero_lot, b_date_production := Some t\<rparr>"

text \<open>
  \<^verbatim>\<open>calculer_cout_production\<close>, dispatched on the class of the drink. The literals
  \<^verbatim>\<open>0.5\<close>, \<^verbatim>\<open>1.5\<close>, \<^verbatim>\<open>1.0\<close> and \<^verbatim>\<open>2.0\<close> are binary64 numbers; \<^verbatim>\<open>1.2\<close> and \<^verbatim>\<open>0.1\<close> are
  rounded when Python reads them; the integers \<^verbatim>\<open>1\<close>, \<^verbatim>\<open>100\<close> and \<^verbatim>\<open>1000\<close> become floats
  in an operation with a float.
\<close>

definition calculer_cout_production :: "boisson \<Rightarrow> erreur + float64" where
  "calculer_cout_production b =
     (case b_classe b of
        Eau est_gazeuse \<Rightarrow>
          (let cout_base = float_mul (b_volume b) (Fini (1 / 2)) in
           if est_gazeuse then Inr (float_mul cout_base (round64 (6 / 5))) else Inr cout_base)
      | Jus pourcentage_fruits \<Rightarrow>
          (let cout_base = float_mul (b_volume b) (Fini (3 / 2)) in
           case float_div pourcentage_fruits (Fini 100) of
             Inl e \<Rightarrow> Inl e
           | Inr q \<Rightarrow>
               (let majoration_fruits = float_mul q (Fini (1 / 2)) in
                Inr (float_mul cout_base (float_add (Fini 1) majoration_fruits))))
      | Soda taux_sucre \<Rightarrow>
          (let cout_base = float_mul (b_volume b) (Fini 1) in
           case float_div taux_sucre (Fini 100) of
             Inl e \<Rightarrow> Inl e
           | Inr q \<Rightarrow>
               (let majoration_sucre = float_mul q (round64 (1 / 10)) in
                Inr (float_mul cout_base (float_add (Fini 1) majoration_sucre))))
      | BoissonEnergisante taux_cafeine \<Rightarrow>
          (let cout_base = float_mul (b_volume b) (Fini 2) in
           case float_div taux_cafeine (Fini 1000) of
             Inl e \<Rightarrow> Inl e
           | Inr q \<Rightarrow>
               (let majoration_cafeine = float_mul q (Fini (1 / 2)) in
                Inr (float_mul cout_base (float_add (Fini 1) majoration_cafeine)))))"

text \<open>The ingredient name \<^verbatim>\<open>mineraux\<close>, written in the source with an e-acute.\<close>

definition mineraux :: string where
  "mineraux = ''min'' @ [CHR 0xE9] @ ''raux''"

text \<open>The list \<^verbatim>\<open>ingredients_valides\<close> of \<^verbatim>\<open>Eau.valider_ingredients\<close>.\<close>

definition ingredients_valides :: "string list" where
  "ingredients_valides = [''eau'', mineraux, ''co2'']"

text \<open>The loop of \<^verbatim>\<open>Eau.valider_ingredients\<close>: false at the first name not in the list.\<close>

fun Eau_valider :: "ingredient list \<Rightarrow> bool" where
  "Eau_valider [] = True"
| "Eau_valider (i # reste) =
     (if lower (ing_nom i) \<notin> set ingredients_valides then False else Eau_valider reste)"

text \<open>\<^verbatim>\<open>valider_ingredients\<close>, dispatched on the class of the drink.\<close>

definition valider_ingredients :: "boisson \<Rightarrow> bool" where
  "valider_ingredients b =
     (case b_classe b of
        Eau est_gazeuse \<Rightarrow> Eau_valider (b_ingredients b)
      | Jus pourcentage_fruits \<Rightarrow>
          list_ex (\<lambda>ing. contient (lower (ing_nom ing)) ''fruit''
                     \<or> list_ex (\<lambda>fruit. contient (lower (ing_nom ing)) fruit)
                          [''pomme'', ''orange'', ''raisin'', ''ananas'', ''mangue''])
            (b_ingredients b)
      | Soda taux_sucre \<Rightarrow>
          (let ingredients_presents = map (\<lambda>ing. lower (ing_nom ing)) (b_ingredients b) in
           list_all (\<lambda>requis. contient (join_espace ingredients_presents) requis)
             [''eau'', ''sucre'', ''co2''])
      | BoissonEnergisante taux_cafeine \<Rightarrow>
          list_ex (\<lambda>ing. contient (lower (ing_nom ing)) ''cafeine''
                     \<or> contient (lower (ing_nom ing)) ''taurine''
                     \<or> contient (lower (ing_nom ing)) ''guarana'')
            (b_ingredients b))"


section \<open>usine.py: Stock\<close>

record stock =
  st_ingredients :: "string \<rightharpoonup> float64"
  st_seuils_alerte :: "string \<rightharpoonup> float64"

definition Stock_init :: stock where
  "Stock_init = \<lparr>st_ingredients = Map.empty, st_seuils_alerte = Map.empty\<rparr>"

text \<open>
  \<^verbatim>\<open>Stock.ajouter_ingredient\<close>. The caller passes \<open>seuil_alerte\<close>, 10.0 when the Python
  call leaves it out.
\<close>

definition ajouter_ingredient ::
  "string \<Rightarrow> float64 \<Rightarrow> float64 \<Rightarrow> stock \<Rightarrow> erreur + stock" where
  "ajouter_ingredient nom quantite seuil_alerte s =
     (if st_ingredients s nom \<noteq> None then
        (case dict_lire (st_ingredients s) nom of
           Inl e \<Rightarrow> Inl e
         | Inr v \<Rightarrow> Inr (s\<lparr>st_ingredients := (st_ingredients s)(nom \<mapsto> float_add v quantite)\<rparr>))
      else
        Inr (s\<lparr>st_ingredients := (st_ingredients s)(nom \<mapsto> quantite),
               st_seuils_alerte := (st_seuils_alerte s)(nom \<mapsto> seuil_alerte)\<rparr>))"

text \<open>\<^verbatim>\<open>Stock.consommer_ingredient\<close>: the returned boolean and the stock after the call.\<close>

definition consommer_ingredient ::
  "string \<Rightarrow> float64 \<Rightarrow> stock \<Rightarrow> erreur + (bool \<times> stock)" where
  "consommer_ingredient nom quantite s =
     (if st_ingredients s nom = None then Inr (False, s)
      else
        (case dict_lire (st_ingredients s) nom of
           Inl e \<Rightarrow> Inl e
         | Inr v \<Rightarrow>
             if float_ge v quantite
             then Inr (True,
                       s\<lparr>st_ingredients := (st_ingredients s)(nom \<mapsto> float_sub v quantite)\<rparr>)
             else Inr (False, s)))"

text \<open>\<^verbatim>\<open>Stock.verifier_disponibilite\<close>\<close>

fun verifier_disponibilite :: "stock \<Rightarrow> ingredient list \<Rightarrow> erreur + bool" where
  "verifier_disponibilite s [] = Inr True"
| "verifier_disponibilite s (ingredient # reste) =
     (if st_ingredients s (ing_nom ingredient) = None then Inr False
      else
        (case dict_lire (st_ingredients s) (ing_nom ingredient) of
           Inl e \<Rightarrow> Inl e
         | Inr v \<Rightarrow>
             if float_lt v (ing_quantite ingredient) then Inr False
             else verifier_disponibilite s reste))"


section \<open>usine.py: EtapeProduction, ProcessusProduction\<close>

record etape_production =
  e_nom :: string
  e_duree_minutes :: int
  e_description :: string

text \<open>\<^verbatim>\<open>EtapeProduction.executer\<close>; no class of the repository overrides it.\<close>

definition executer :: "etape_production \<Rightarrow> boisson \<Rightarrow> bool" where
  "executer e b = True"

record processus_production =
  p_nom :: string
  p_etapes :: "etape_production list"

definition calculer_duree_totale :: "processus_production \<Rightarrow> int" where
  "calculer_duree_totale p = sum_list (map e_duree_minutes (p_etapes p))"

text \<open>The loop of \<^verbatim>\<open>executer_processus\<close>: false at the first step that fails.\<close>

fun executer_etapes :: "etape_production list \<Rightarrow> boisson \<Rightarrow> bool" where
  "executer_etapes [] b = True"
| "executer_etapes (etape # reste) b =
     (if \<not> executer etape b then False else executer_etapes reste b)"

definition executer_processus :: "processus_production \<Rightarrow> boisson \<Rightarrow> bool" where
  "executer_processus p b = executer_etapes (p_etapes p) b"


section \<open>usine.py: LigneProduction\<close>

record enregistrement =
  h_boisson :: string
  h_lot :: "string option"
  h_debut :: "datetime option"
  h_fin :: datetime
  h_volume :: float64

record ligne_production =
  l_nom :: string
  l_capacite_horaire :: int
  l_processus :: processus_production
  l_est_active :: bool
  l_production_actuelle :: "boisson option"
  l_heure_debut_production :: "datetime option"
  l_historique_production :: "enregistrement list"

definition LigneProduction_init ::
  "string \<Rightarrow> int \<Rightarrow> processus_production \<Rightarrow> ligne_production" where
  "LigneProduction_init nom capacite_horaire processus =
     \<lparr>l_nom = nom, l_capacite_horaire = capacite_horaire, l_processus = processus,
      l_est_active = False, l_production_actuelle = None,
      l_heure_debut_production = None, l_historique_production = []\<rparr>"

text \<open>
  \<^verbatim>\<open>LigneProduction.demarrer_production\<close>: the returned boolean, the line and the drink
  after the call. The clock is read for \<^verbatim>\<open>heure_debut_production\<close> (\<open>h 0\<close>), for the
  lot number (\<open>h 1\<close>) and by \<^verbatim>\<open>definir_lot\<close> (\<open>h 2\<close>). The line holds the drink object
  itself, so \<^verbatim>\<open>production_actuelle\<close> carries the lot number once \<^verbatim>\<open>definir_lot\<close> has run.
\<close>

definition demarrer_production ::
  "horloge \<Rightarrow> ligne_production \<Rightarrow> boisson \<Rightarrow> bool \<times> ligne_production \<times> boisson" where
  "demarrer_production h l b =
     (if l_est_active l then (False, l, b)
      else
        (let numero_lot = l_nom l @ ''-'' @ strftime_YmdHMS (h 1);
             b' = definir_lot (h 2) numero_lot b;
             l' = l\<lparr>l_est_active := True,
                    l_production_actuelle := Some b',
                    l_heure_debut_production := Some (h 0)\<rparr>
         in (executer_processus (l_processus l') b', l', b')))"

text \<open>
  \<^verbatim>\<open>LigneProduction.terminer_production\<close>: the returned drink (\<open>None\<close> for Python's
  \<^verbatim>\<open>None\<close>) and the line after the call; \<open>t\<close> is its reading of the clock. Reading
  \<^verbatim>\<open>boisson_produite.nom\<close> raises \<^verbatim>\<open>AttributeError\<close> when an active line holds no drink.
\<close>

definition terminer_production ::
  "datetime \<Rightarrow> ligne_production \<Rightarrow> erreur + (boisson option \<times> ligne_production)" where
  "terminer_production t l =
     (if \<not> l_est_active l then Inr (None, l)
      else
        (case l_production_actuelle l of
           None \<Rightarrow> Inl AttributeError
         | Some boisson_produite \<Rightarrow>
             Inr (Some boisson_produite,
                  l\<lparr>l_historique_production :=
                       l_historique_production l @
                         [\<lparr>h_boisson = b_nom boisson_produite,
                           h_lot = b_numero_lot boisson_produite,
                           h_debut = l_heure_debut_production l,
                           h_fin = t,
                           h_volume = b_volume boisson_produite\<rparr>],
                    l_est_active := False,
                    l_production_actuelle := None,
                    l_heure_debut_production := None\<rparr>)))"


section \<open>usine.py: Usine\<close>

record usine =
  u_nom :: string
  u_lignes_production :: "ligne_production list"
  u_stock :: stock
  u_production_journaliere :: "boisson list"
  u_objectifs_production :: "string \<rightharpoonup> int"

definition Usine_init :: "string \<Rightarrow> usine" where
  "Usine_init nom =
     \<lparr>u_nom = nom, u_lignes_production = [], u_stock = Stock_init,
      u_production_journaliere = [], u_objectifs_production = Map.empty\<rparr>"

definition ajouter_ligne_production :: "ligne_production \<Rightarrow> usine \<Rightarrow> usine" where
  "ajouter_ligne_production ligne u =
     u\<lparr>u_lignes_production := u_lignes_production u @ [ligne]\<rparr>"

text \<open>
  The first loop of \<^verbatim>\<open>produire_boisson\<close>: the first line that is not active, with its
  position in the list, or \<open>None\<close> for \<^verbatim>\<open>ligne_disponible is None\<close>.
\<close>

fun ligne_disponible :: "ligne_production list \<Rightarrow> (nat \<times> ligne_production) option" where
  "ligne_disponible [] = None"
| "ligne_disponible (ligne # reste) =
     (if \<not> l_est_active ligne then Some (0, ligne)
      else map_option (\<lambda>(i, l). (Suc i, l)) (ligne_disponible reste))"

text \<open>
  The second loop of \<^verbatim>\<open>produire_boisson\<close>: the ingredients are consumed in order; at
  the first that cannot be consumed the loop stops, and those before it stay consumed.
\<close>

fun consommer_ingredients :: "ingredient list \<Rightarrow> stock \<Rightarrow> erreur + (bool \<times> stock)" where
  "consommer_ingredients [] s = Inr (True, s)"
| "consommer_ingredients (ingredient # reste) s =
     (case consommer_ingredient (ing_nom ingredient) (ing_quantite ingredient) s of
        Inl e \<Rightarrow> Inl e
      | Inr (ok, s') \<Rightarrow> if \<not> ok then Inr (False, s') else consommer_ingredients reste s')"

text \<open>
  \<^verbatim>\<open>Usine.produire_boisson\<close>: the returned boolean, the factory and the drink after the
  call. \<open>h 0\<close>, \<open>h 1\<close>, \<open>h 2\<close> are the readings of \<^verbatim>\<open>demarrer_production\<close>, \<open>h 3\<close> that
  of \<^verbatim>\<open>terminer_production\<close>. A drink object is never false in Python (the class defines
  neither \<^verbatim>\<open>__bool__\<close> nor \<^verbatim>\<open>__len__\<close>), so \<^verbatim>\<open>if boisson_produite\<close> tests for \<^verbatim>\<open>None\<close>.
\<close>

definition produire_boisson ::
  "horloge \<Rightarrow> usine \<Rightarrow> boisson \<Rightarrow> erreur + (bool \<times> usine \<times> boisson)" where
  "produire_boisson h u b =
     (case verifier_disponibilite (u_stock u) (b_ingredients b) of
        Inl e \<Rightarrow> Inl e
      | Inr disponible \<Rightarrow>
          if \<not> disponible then Inr (False, u, b)
          else
            (case ligne_disponible (u_lignes_production u) of
               None \<Rightarrow> Inr (False, u, b)
             | Some (i, ligne) \<Rightarrow>
                 (case consommer_ingredients (b_ingredients b) (u_stock u) of
                    Inl e \<Rightarrow> Inl e
                  | Inr (ok, s') \<Rightarrow>
                      if \<not> ok then Inr (False, u\<lparr>u_stock := s'\<rparr>, b)
                      else
                        (case demarrer_production h ligne b of
                           (demarree, l', b') \<Rightarrow>
                             if demarree then
                               (case terminer_production (h 3) l' of
                                  Inl e \<Rightarrow> Inl e
                                | Inr (None, l'') \<Rightarrow>
                                    Inr (False,
                                         u\<lparr>u_stock := s',
                                           u_lignes_production :=
                                             (u_lignes_production u)[i := l'']\<rparr>,
                                         b')
                                | Inr (Some boisson_produite, l'') \<Rightarrow>
                                    Inr (True,
                                         u\<lparr>u_stock := s',
                                           u_lignes_production :=
                                             (u_lignes_production u)[i := l''],
                                           u_production_journaliere :=
                                             u_production_journaliere u @ [boisson_produite]\<rparr>,
                                         b'))
                             else
                               Inr (False,
                                    u\<lparr>u_stock := s',
                                      u_lignes_production :=
                                        (u_lignes_production u)[i := l']\<rparr>,
                                    b')))))"





section \<open>Sequences of calls on a stock\<close>

text \<open>
  A call of \<^verbatim>\<open>ajouter_ingredient(nom, quantite, seuil_alerte)\<close> or of
  \<^verbatim>\<open>consommer_ingredient(nom, quantite)\<close>, and the stock that a list of such calls leaves.
\<close>

datatype appel =
    Ajouter string float64 float64
  | Consommer string float64

fun executer_appel :: "appel \<Rightarrow> stock \<Rightarrow> erreur + stock" where
  "executer_appel (Ajouter nom quantite seuil_alerte) s =
     ajouter_ingredient nom quantite seuil_alerte s"
| "executer_appel (Consommer nom quantite) s =
     map_sum id snd (consommer_ingredient nom quantite s)"

fun executer_appels :: "appel list \<Rightarrow> stock \<Rightarrow> erreur + stock" where
  "executer_appels [] s = Inr s"
| "executer_appels (a # reste) s =
     (case executer_appel a s of Inl e \<Rightarrow> Inl e | Inr s' \<Rightarrow> executer_appels reste s')"

text \<open>
  A call whose quantity is a real number, that is a finite float, and which, when it is a
  call of \<^verbatim>\<open>ajouter_ingredient\<close>, adds a quantity that is not negative.
\<close>

fun ajout_positif :: "appel \<Rightarrow> bool" where
  "ajout_positif (Ajouter nom (Fini q) seuil_alerte) = (0 \<le> q)"
| "ajout_positif (Ajouter nom quantite seuil_alerte) = False"
| "ajout_positif (Consommer nom (Fini q)) = True"
| "ajout_positif (Consommer nom quantite) = False"


section \<open>A stock that can serve two drinks\<close>



section \<open>The fixtures of tests.py\<close>

text \<open>A clock for the examples: the readings of one call are one second apart.\<close>

definition horloge_test :: horloge where
  "horloge_test k = \<lparr>annee = 2024, mois = 1, jour = 15, heure = 10, minute = 30,
                      seconde = k, microseconde = 0\<rparr>"

text \<open>The line of \<^verbatim>\<open>TestLigneProduction.setUp\<close> and \<^verbatim>\<open>TestUsine.setUp\<close>.\<close>

definition ligne_test :: ligne_production where
  "ligne_test =
     LigneProduction_init ''Ligne Test'' 100
       \<lparr>p_nom = ''Test Process'',
        p_etapes = [\<lparr>e_nom = ''Test'', e_duree_minutes = 5, e_description = []\<rparr>]\<rparr>"

text \<open>\<^verbatim>\<open>Eau("Eau Test", 1.0, [Ingredient("eau", 1.0)])\<close>\<close>

definition eau_test :: boisson where
  "eau_test =
     Eau_init ''Eau Test'' (Fini 1)
       [\<lparr>ing_nom = ''eau'', ing_quantite = Fini 1, ing_unite = ''L''\<rparr>] False"

text \<open>The factory that \<^verbatim>\<open>TestUsine.setUp\<close> builds: one line, 100 of water, 50 of minerals.\<close>

definition usine_test :: usine where
  "usine_test =
     \<lparr>u_nom = ''Usine Test'', u_lignes_production = [ligne_test],
      u_stock = \<lparr>st_ingredients = [''eau'' \<mapsto> Fini 100, mineraux \<mapsto> Fini 50],
                 st_seuils_alerte = [''eau'' \<mapsto> Fini 10, mineraux \<mapsto> Fini 10]\<rparr>,
      u_production_journaliere = [], u_objectifs_production = Map.empty\<rparr>"





section \<open>Properties of binary64 rounding\<close>

lemma pw2_powi: "pw2 e = 2 powi e"
  by (auto simp: pw2_def power_int_def field_simps)

lemma pw2_pos: "0 < pw2 e"
  by (simp add: pw2_powi)

lemma pw2_add: "pw2 (a + b) = pw2 a * pw2 b"
  by (simp add: pw2_powi power_int_add)

lemma pw2_diff: "pw2 (a - b) = pw2 a / pw2 b"
  by (simp add: pw2_powi power_int_diff)

lemma pw2_mono: "a \<le> b \<Longrightarrow> pw2 a \<le> pw2 b"
  by (simp add: pw2_powi power_int_increasing)

lemma pw2_strict_mono: "a < b \<Longrightarrow> pw2 a < pw2 b"
  by (simp add: pw2_powi power_int_strict_increasing)

lemma pw2_le_cancel: "pw2 a \<le> pw2 b \<Longrightarrow> a \<le> b"
  using pw2_strict_mono [of b a] by (cases "a \<le> b") auto

lemma pw2_less_cancel: "pw2 a < pw2 b \<Longrightarrow> a < b"
  using pw2_mono [of b a] by (cases "a < b") auto

lemma pw2_nat: "0 \<le> e \<Longrightarrow> pw2 e = of_int (2 ^ nat e)"
  by (simp add: pw2_def)

lemma exposant_bounds:
  assumes "x \<noteq> 0"
  shows "pw2 (exposant x) \<le> \<bar>x\<bar> \<and> \<bar>x\<bar> < pw2 (exposant x + 1)"
proof -
  obtain p q where pq: "quotient_of \<bar>x\<bar> = (p, q)" by (cases "quotient_of \<bar>x\<bar>") auto
  then have q: "0 < q" and x: "\<bar>x\<bar> = of_int p / of_int q"
    using quotient_of_denom_pos quotient_of_div by auto
  from assms have "0 < \<bar>x\<bar>" by simp
  with x q have p: "0 < p" by (simp add: zero_less_divide_iff)
  define d where "d = bitlen p - bitlen q"
  have bp: "1 \<le> bitlen p" and bq: "1 \<le> bitlen q"
    using p q bitlen_eq_zero_iff [of p] bitlen_eq_zero_iff [of q] bitlen_nonneg [of p] bitlen_nonneg [of q]
    by linarith+
  from bitlen_bounds [OF p] have "(of_int (2 ^ nat (bitlen p - 1)) :: rat) \<le> of_int p"
    and "(of_int p :: rat) < of_int (2 ^ nat (bitlen p))"
    by (simp_all only: of_int_le_iff of_int_less_iff)
  then have P1: "pw2 (bitlen p - 1) \<le> of_int p" and P2: "of_int p < pw2 (bitlen p)"
    using bp by (simp_all add: pw2_nat)
  from bitlen_bounds [OF q] have "(of_int (2 ^ nat (bitlen q - 1)) :: rat) \<le> of_int q"
    and "(of_int q :: rat) < of_int (2 ^ nat (bitlen q))"
    by (simp_all only: of_int_le_iff of_int_less_iff)
  then have Q1: "pw2 (bitlen q - 1) \<le> of_int q" and Q2: "of_int q < pw2 (bitlen q)"
    using bq by (simp_all add: pw2_nat)
  have qpos: "(0::rat) < of_int q" using q by simp
  have lo: "pw2 (d - 1) < \<bar>x\<bar>"
  proof -
    have "pw2 (d - 1) * of_int q < pw2 (d - 1) * pw2 (bitlen q)"
      using Q2 pw2_pos [of "d - 1"] by simp
    also have "\<dots> = pw2 (bitlen p - 1)"
      by (simp add: d_def pw2_add [symmetric])
    also have "\<dots> \<le> of_int p" by (rule P1)
    finally show ?thesis using qpos by (simp add: x pos_less_divide_eq)
  qed
  have hi: "\<bar>x\<bar> < pw2 (d + 1)"
  proof -
    have "of_int p < pw2 (bitlen p)" by (rule P2)
    also have "\<dots> = pw2 (d + 1) * pw2 (bitlen q - 1)"
      by (simp add: d_def pw2_add [symmetric])
    also have "\<dots> \<le> pw2 (d + 1) * of_int q"
      using Q1 pw2_pos [of "d + 1"] by simp
    finally show ?thesis using qpos by (simp add: x pos_divide_less_eq)
  qed
  show ?thesis
  proof (cases "pw2 d \<le> \<bar>x\<bar>")
    case True
    then have "exposant x = d" by (simp add: exposant_def pq d_def Let_def)
    with True hi show ?thesis by simp
  next
    case False
    then have "exposant x = d - 1" by (simp add: exposant_def pq d_def Let_def)
    with False lo show ?thesis by simp
  qed
qed

lemma exposant_unique:
  assumes "pw2 e \<le> \<bar>x\<bar>" and "\<bar>x\<bar> < pw2 (e + 1)"
  shows "exposant x = e"
proof -
  from assms(1) pw2_pos [of e] have "x \<noteq> 0" by auto
  from exposant_bounds [OF this]
  have b1: "pw2 (exposant x) \<le> \<bar>x\<bar>" and b2: "\<bar>x\<bar> < pw2 (exposant x + 1)" by simp_all
  from b1 assms(2) have "pw2 (exposant x) < pw2 (e + 1)" by simp
  then have "exposant x < e + 1" by (rule pw2_less_cancel)
  moreover from assms(1) b2 have "pw2 e < pw2 (exposant x + 1)" by simp
  then have "e < exposant x + 1" by (rule pw2_less_cancel)
  ultimately show ?thesis by simp
qed

lemma exposant_mono:
  assumes "x \<noteq> 0" and "\<bar>x\<bar> \<le> \<bar>y\<bar>"
  shows "exposant x \<le> exposant y"
proof -
  from assms have y: "y \<noteq> 0" by auto
  from exposant_bounds [OF assms(1)] exposant_bounds [OF y] assms(2)
  have "pw2 (exposant x) < pw2 (exposant y + 1)" by simp
  then have "exposant x < exposant y + 1" by (rule pw2_less_cancel)
  then show ?thesis by simp
qed

lemma arrondi_pair_ge: "of_int k \<le> y \<Longrightarrow> k \<le> arrondi_pair y"
proof -
  assume "of_int k \<le> y"
  then have "k \<le> \<lfloor>y\<rfloor>" by (simp add: le_floor_iff)
  then show ?thesis by (simp add: arrondi_pair_def Let_def)
qed

lemma arrondi_pair_of_int: "arrondi_pair (of_int k) = k"
  by (simp add: arrondi_pair_def Let_def)

lemma arrondi_pair_le: "y \<le> of_int k \<Longrightarrow> arrondi_pair y \<le> k"
proof (cases "y = of_int k")
  case True
  then show ?thesis by (simp add: arrondi_pair_of_int)
next
  case False
  assume "y \<le> of_int k"
  with False have "y < of_int k" by simp
  then have "\<lfloor>y\<rfloor> < k" by (simp add: floor_less_iff)
  then show ?thesis by (simp add: arrondi_pair_def Let_def)
qed

lemma arrondi_pair_gt_demi: "of_int k + 1 / 2 < y \<Longrightarrow> k + 1 \<le> arrondi_pair y"
proof -
  assume a: "of_int k + 1 / 2 < y"
  then have "of_int k \<le> y" by simp
  then have k: "k \<le> \<lfloor>y\<rfloor>" by (simp add: le_floor_iff)
  show ?thesis
  proof (cases "k = \<lfloor>y\<rfloor>")
    case True
    with a have "1 / 2 < y - of_int \<lfloor>y\<rfloor>" by simp
    then show ?thesis using True by (simp add: arrondi_pair_def Let_def)
  next
    case False
    with k have "k + 1 \<le> \<lfloor>y\<rfloor>" by simp
    then show ?thesis by (simp add: arrondi_pair_def Let_def)
  qed
qed

lemma round64_fini:
  "x \<noteq> 0 \<Longrightarrow> \<bar>of_int (entier x) * pw2 (quantum x)\<bar> < pw2 1024 \<Longrightarrow>
   round64 x = Fini (of_int (entier x) * pw2 (quantum x))"
  by (simp add: round64_def Let_def)

lemma round64_infini:
  "x \<noteq> 0 \<Longrightarrow> pw2 1024 \<le> \<bar>of_int (entier x) * pw2 (quantum x)\<bar> \<Longrightarrow>
   round64 x = (if 0 < x then PInf else MInf)"
  by (simp add: round64_def Let_def)

lemma round64_positif: "0 \<le> x \<Longrightarrow> float_ge (round64 x) (Fini 0)"
proof (cases "x = 0")
  case True
  then show ?thesis by (simp add: round64_def)
next
  case False
  assume "0 \<le> x"
  with False have pos: "0 < x" by simp
  with pw2_pos [of "quantum x"] have "(0::rat) \<le> x / pw2 (quantum x)" by simp
  then have "0 \<le> entier x"
    unfolding entier_def using arrondi_pair_ge [of 0] by simp
  with pw2_pos [of "quantum x"] have r: "(0::rat) \<le> of_int (entier x) * pw2 (quantum x)"
    by simp
  show ?thesis
  proof (cases "pw2 1024 \<le> \<bar>of_int (entier x) * pw2 (quantum x)\<bar>")
    case True
    with False pos show ?thesis by (simp add: round64_infini)
  next
    case False
    with \<open>x \<noteq> 0\<close> r show ?thesis by (simp add: round64_fini)
  qed
qed

lemma round64_exact:
  assumes x: "x = of_int m * pw2 k" and m: "\<bar>m\<bar> < 2 ^ 53" and k: "- 1074 \<le> k"
    and fin: "\<bar>x\<bar> < pw2 1024"
  shows "round64 x = Fini x"
proof (cases "x = 0")
  case True
  then show ?thesis by (simp add: round64_def)
next
  case False
  from m have "(of_int \<bar>m\<bar> :: rat) < of_int (2 ^ 53)" by (simp only: of_int_less_iff)
  then have "\<bar>of_int m :: rat\<bar> < pw2 53" by (simp add: pw2_def)
  then have "\<bar>x\<bar> < pw2 53 * pw2 k"
    using pw2_pos [of k] by (simp add: x abs_mult)
  then have "\<bar>x\<bar> < pw2 (k + 53)" by (simp add: pw2_add mult.commute)
  with exposant_bounds [OF False] have "pw2 (exposant x) < pw2 (k + 53)" by simp
  then have "exposant x < k + 53" by (rule pw2_less_cancel)
  with k have "quantum x \<le> k" by (simp add: quantum_def)
  define q where "q = quantum x"
  with \<open>quantum x \<le> k\<close> have q: "q \<le> k" by simp
  then have "pw2 (k - q) = of_int (2 ^ nat (k - q))"
    by (simp add: pw2_nat)
  then have d: "pw2 k / pw2 q = of_int (2 ^ nat (k - q))"
    by (simp only: pw2_diff)
  have "x / pw2 q = of_int m * (pw2 k / pw2 q)"
    by (simp add: x)
  then have y: "x / pw2 q = of_int (m * 2 ^ nat (k - q))"
    by (simp only: d of_int_mult)
  then have "arrondi_pair (x / pw2 q) = m * 2 ^ nat (k - q)"
    by (simp only: arrondi_pair_of_int)
  then have "of_int (arrondi_pair (x / pw2 q)) * pw2 q = x / pw2 q * pw2 q"
    using y by simp
  also have "\<dots> = x" using pw2_pos [of q] by simp
  finally have "of_int (entier x) * pw2 (quantum x) = x"
    by (simp add: entier_def q_def)
  with round64_fini [OF False] fin show ?thesis by simp
qed

lemma valide_forme:
  assumes "valide (Fini v)" and "v \<noteq> 0"
  shows "v = of_int (entier v) * pw2 (quantum v) \<and> \<bar>v\<bar> < pw2 1024"
proof (cases "pw2 1024 \<le> \<bar>of_int (entier v) * pw2 (quantum v)\<bar>")
  case True
  with assms round64_infini [OF assms(2) True] show ?thesis by (simp split: if_splits)
next
  case False
  with assms round64_fini [OF assms(2)] show ?thesis by simp
qed

lemma multiple_quantum:
  assumes "valide (Fini v)" and "v \<noteq> 0" and "q \<le> quantum v"
  shows "\<exists>k. v = of_int k * pw2 q"
proof -
  from valide_forme [OF assms(1,2)] have v: "v = of_int (entier v) * pw2 (quantum v)" by simp
  from assms(3) have "pw2 (quantum v - q) = of_int (2 ^ nat (quantum v - q))"
    by (simp add: pw2_nat)
  moreover have "pw2 (quantum v) = pw2 (quantum v - q) * pw2 q"
    by (simp add: pw2_add [symmetric])
  ultimately have "pw2 (quantum v) = of_int (2 ^ nat (quantum v - q)) * pw2 q" by simp
  with v have "v = of_int (entier v) * (of_int (2 ^ nat (quantum v - q)) * pw2 q)" by simp
  then have "v = of_int (entier v * 2 ^ nat (quantum v - q)) * pw2 q"
    by (simp only: of_int_mult mult.assoc)
  then show ?thesis by blast
qed

lemma entier_ge_multiple:
  assumes "v = of_int k * pw2 (quantum x)" and "v \<le> x"
  shows "v \<le> of_int (entier x) * pw2 (quantum x)"
proof -
  from assms pw2_pos [of "quantum x"] have "of_int k \<le> x / pw2 (quantum x)"
    by (simp add: pos_le_divide_eq)
  then have "k \<le> entier x" unfolding entier_def by (rule arrondi_pair_ge)
  then have "(of_int k :: rat) \<le> of_int (entier x)" by simp
  with pw2_pos [of "quantum x"] show ?thesis by (simp add: assms(1))
qed

lemma entier_le_multiple:
  assumes "v = of_int k * pw2 (quantum x)" and "x \<le> v"
  shows "of_int (entier x) * pw2 (quantum x) \<le> v"
proof -
  from assms pw2_pos [of "quantum x"] have "x / pw2 (quantum x) \<le> of_int k"
    by (simp add: pos_divide_le_eq)
  then have "entier x \<le> k" unfolding entier_def by (rule arrondi_pair_le)
  then have "(of_int (entier x) :: rat) \<le> of_int k" by simp
  with pw2_pos [of "quantum x"] show ?thesis by (simp add: assms(1))
qed

lemma valide_min:
  assumes "valide (Fini v)" and "v \<noteq> 0"
  shows "- 1074 \<le> exposant v"
proof -
  from valide_forme [OF assms] have v: "v = of_int (entier v) * pw2 (quantum v)" by simp
  with assms(2) have "entier v \<noteq> 0" by auto
  then have "(1::rat) \<le> \<bar>of_int (entier v)\<bar>" by (simp add: abs_if)
  moreover have "\<bar>v\<bar> = \<bar>of_int (entier v)\<bar> * pw2 (quantum v)"
    using pw2_pos [of "quantum v"] by (subst v) (simp add: abs_mult)
  ultimately have "pw2 (quantum v) \<le> \<bar>v\<bar>"
    using pw2_pos [of "quantum v"] by (simp add: mult_le_cancel_right1)
  moreover have "pw2 (- 1074) \<le> pw2 (quantum v)"
    by (rule pw2_mono) (simp add: quantum_def)
  ultimately have "pw2 (- 1074) < pw2 (exposant v + 1)"
    using exposant_bounds [OF assms(2)] by simp
  then have "- 1074 < exposant v + 1" by (rule pw2_less_cancel)
  then show ?thesis by simp
qed

lemma puissance_multiple:
  assumes "- 1074 \<le> exposant x"
  shows "\<exists>k. pw2 (exposant x) = of_int k * pw2 (quantum x)"
proof -
  from assms have "quantum x \<le> exposant x" by (simp add: quantum_def)
  then have "pw2 (exposant x - quantum x) = of_int (2 ^ nat (exposant x - quantum x))"
    by (simp add: pw2_nat)
  moreover have "pw2 (exposant x) = pw2 (exposant x - quantum x) * pw2 (quantum x)"
    by (simp add: pw2_add [symmetric])
  ultimately have "pw2 (exposant x) = of_int (2 ^ nat (exposant x - quantum x)) * pw2 (quantum x)"
    by simp
  then show ?thesis by blast
qed

text \<open>Rounding never goes below a binary64 number that the exact value is not below.\<close>

lemma entier_ge_valide:
  assumes v: "valide (Fini v)" and le: "v \<le> x" and x: "x \<noteq> 0"
  shows "v \<le> of_int (entier x) * pw2 (quantum x)"
proof (cases "v = 0")
  case True
  with le x have "0 < x" by simp
  have "(0::rat) = of_int 0 * pw2 (quantum x)" by simp
  from entier_ge_multiple [OF this] \<open>0 < x\<close> True show ?thesis by simp
next
  case False
  note v0 = this
  show ?thesis
  proof (cases "0 < x")
    case False
    with x le have neg: "x < 0" "v < 0" by simp_all
    with le have "\<bar>x\<bar> \<le> \<bar>v\<bar>" by simp
    from exposant_mono [OF x this] have "quantum x \<le> quantum v" by (simp add: quantum_def)
    from multiple_quantum [OF v v0 this] obtain k where "v = of_int k * pw2 (quantum x)" by blast
    from entier_ge_multiple [OF this le] show ?thesis .
  next
    case True
    show ?thesis
    proof (cases "0 < v")
      case False
      have "(0::rat) = of_int 0 * pw2 (quantum x)" by simp
      from entier_ge_multiple [OF this] True have "0 \<le> of_int (entier x) * pw2 (quantum x)" by simp
      with False show ?thesis by simp
    next
      case True
      with le have "\<bar>v\<bar> \<le> \<bar>x\<bar>" by simp
      from exposant_mono [OF v0 this] have E: "exposant v \<le> exposant x" .
      show ?thesis
      proof (cases "exposant v = exposant x")
        case True
        then have "quantum x \<le> quantum v" by (simp add: quantum_def)
        from multiple_quantum [OF v v0 this] obtain k where "v = of_int k * pw2 (quantum x)"
          by blast
        from entier_ge_multiple [OF this le] show ?thesis .
      next
        case False
        with E have lt: "exposant v + 1 \<le> exposant x" by simp
        from valide_min [OF v v0] lt have "- 1074 \<le> exposant x" by simp
        from puissance_multiple [OF this] obtain k where
          k: "pw2 (exposant x) = of_int k * pw2 (quantum x)" by blast
        from exposant_bounds [OF x] \<open>0 < x\<close> have "pw2 (exposant x) \<le> x" by simp
        from entier_ge_multiple [OF k this]
        have "pw2 (exposant x) \<le> of_int (entier x) * pw2 (quantum x)" .
        moreover from exposant_bounds [OF v0] \<open>0 < v\<close> have "v < pw2 (exposant v + 1)" by simp
        moreover from lt have "pw2 (exposant v + 1) \<le> pw2 (exposant x)" by (rule pw2_mono)
        ultimately show ?thesis by simp
      qed
    qed
  qed
qed

lemma round64_ge_valide:
  assumes v: "valide (Fini v)" and le: "v \<le> x"
  shows "float_ge (round64 x) (Fini v)"
proof (cases "x = 0")
  case True
  with le show ?thesis by (simp add: round64_def)
next
  case False
  from entier_ge_valide [OF v le False]
  have r: "v \<le> of_int (entier x) * pw2 (quantum x)" .
  show ?thesis
  proof (cases "pw2 1024 \<le> \<bar>of_int (entier x) * pw2 (quantum x)\<bar>")
    case fin: False
    with round64_fini [OF False] r show ?thesis by simp
  next
    case True
    show ?thesis
    proof (cases "0 < x")
      case True
      with round64_infini [OF False \<open>pw2 1024 \<le> \<bar>of_int (entier x) * pw2 (quantum x)\<bar>\<close>]
      show ?thesis by simp
    next
      case neg: False
      with False have "x \<le> 0" by simp
      have "(0::rat) = of_int 0 * pw2 (quantum x)" by simp
      from entier_le_multiple [OF this \<open>x \<le> 0\<close>]
      have "of_int (entier x) * pw2 (quantum x) \<le> 0" .
      with r True have "pw2 1024 \<le> \<bar>v\<bar>" by simp
      moreover from le neg False have "v \<noteq> 0" by auto
      from valide_forme [OF v this] have "\<bar>v\<bar> < pw2 1024" by simp
      ultimately show ?thesis by simp
    qed
  qed
qed

lemma round64_eval:
  assumes "pw2 e \<le> \<bar>x\<bar>" and "\<bar>x\<bar> < pw2 (e + 1)"
    and "arrondi_pair (x / pw2 (max (e - 52) (- 1074))) = n"
    and "\<bar>of_int n * pw2 (max (e - 52) (- 1074))\<bar> < pw2 1024"
  shows "round64 x = Fini (of_int n * pw2 (max (e - 52) (- 1074)))"
proof -
  from assms(1) pw2_pos [of e] have x: "x \<noteq> 0" by auto
  from exposant_unique [OF assms(1,2)] have "quantum x = max (e - 52) (- 1074)"
    by (simp add: quantum_def)
  with assms(3,4) round64_fini [OF x] show ?thesis by (simp add: entier_def)
qed

lemma litteral_1_2: "round64 (6 / 5) = Fini (5404319552844595 / 4503599627370496)"
proof -
  have a: "arrondi_pair (6 / 5 / pw2 (max (0 - 52) (- 1074))) = 5404319552844595"
    by code_simp
  have "round64 (6 / 5) = Fini (of_int 5404319552844595 * pw2 (max (0 - 52) (- 1074)))"
    by (rule round64_eval [OF _ _ a]) (simp_all add: pw2_def)
  then show ?thesis by (simp add: pw2_def)
qed

lemma tie_1e16: "round64 (10 ^ 16 - 1) = Fini (10 ^ 16)"
proof -
  have a: "arrondi_pair ((10 ^ 16 - 1) / pw2 (max (53 - 52) (- 1074))) = 5000000000000000"
    by code_simp
  have "round64 (10 ^ 16 - 1) = Fini (of_int 5000000000000000 * pw2 (max (53 - 52) (- 1074)))"
    by (rule round64_eval [OF _ _ a]) (simp_all add: pw2_def)
  then show ?thesis by (simp add: pw2_def)
qed

lemma entier_valide_ge3:
  assumes v: "valide (Fini c)" and c: "3 * pw2 (- 1074) \<le> c"
  shows "3 \<le> entier c"
proof -
  from c pw2_pos [of "- 1074"] have pos: "0 < c" by (simp add: less_le_trans)
  then have c0: "c \<noteq> 0" by simp
  from valide_forme [OF v c0] have f: "c = of_int (entier c) * pw2 (quantum c)" by simp
  show ?thesis
  proof (cases "quantum c = - 1074")
    case True
    with f c have "3 * pw2 (- 1074) \<le> of_int (entier c) * pw2 (- 1074)" by simp
    with pw2_pos [of "- 1074"] have "(3::rat) \<le> of_int (entier c)" by simp
    then show ?thesis by linarith
  next
    case False
    then have q: "quantum c = exposant c - 52" by (simp add: quantum_def max_def split: if_splits)
    from exposant_bounds [OF c0] pos have "pw2 (exposant c) \<le> c" by simp
    moreover have "pw2 (exposant c) = pw2 52 * pw2 (quantum c)"
      by (simp add: q pw2_add [symmetric])
    ultimately have "pw2 52 * pw2 (quantum c) \<le> of_int (entier c) * pw2 (quantum c)"
      using f by simp
    with pw2_pos [of "quantum c"] have "pw2 52 \<le> of_int (entier c)" by simp
    then have "(3::rat) \<le> of_int (entier c)" by (simp add: pw2_def)
    then show ?thesis by linarith
  qed
qed

text \<open>Multiplying a binary64 number of at least three quanta by the literal 1.2 moves it up.\<close>

lemma mul_1_2_monte:
  assumes v: "valide (Fini c)" and c: "3 * pw2 (- 1074) \<le> c"
  shows "float_lt (Fini c) (round64 (c * (5404319552844595 / 4503599627370496)))"
proof -
  define x where "x = c * (5404319552844595 / 4503599627370496)"
  from c pw2_pos [of "- 1074"] have pos: "0 < c" by (simp add: less_le_trans)
  then have c0: "c \<noteq> 0" by simp
  from pos have cx: "c < x" and xpos: "0 < x" by (simp_all add: x_def)
  then have x0: "x \<noteq> 0" by simp
  from valide_forme [OF v c0] have f: "c = of_int (entier c) * pw2 (quantum c)" by simp
  from entier_valide_ge3 [OF v c] have m3: "(3::rat) \<le> of_int (entier c)" by simp
  from cx pos have "\<bar>c\<bar> \<le> \<bar>x\<bar>" by simp
  from exposant_mono [OF c0 this] have E: "exposant c \<le> exposant x" .
  have r: "c < of_int (entier x) * pw2 (quantum x)"
  proof (cases "exposant c = exposant x")
    case True
    then have q: "quantum x = quantum c" by (simp add: quantum_def)
    define m g where "m = (of_int (entier c) :: rat)" and "g = pw2 (quantum c)"
    have "0 < g" by (simp add: g_def pw2_pos)
    moreover from f have "c = m * g" by (simp add: m_def g_def)
    ultimately have "x / g = m * (5404319552844595 / 4503599627370496)"
      by (simp add: x_def)
    moreover from m3 have "m + 1 / 2 < m * (5404319552844595 / 4503599627370496)"
      unfolding m_def by linarith
    ultimately have "m + 1 / 2 < x / g" by (simp only:)
    then have "of_int (entier c) + 1 / 2 < x / pw2 (quantum c)"
      by (simp only: m_def g_def)
    then have "entier c + 1 \<le> entier x"
      unfolding entier_def [of x] q by (rule arrondi_pair_gt_demi)
    then have "(of_int (entier c) :: rat) < of_int (entier x)" by simp
    with pw2_pos [of "quantum c"] have
      "of_int (entier c) * pw2 (quantum c) < of_int (entier x) * pw2 (quantum c)" by simp
    with f q show ?thesis by simp
  next
    case False
    with E have lt: "exposant c + 1 \<le> exposant x" by simp
    from valide_min [OF v c0] lt have "- 1074 \<le> exposant x" by simp
    from puissance_multiple [OF this] obtain k where
      k: "pw2 (exposant x) = of_int k * pw2 (quantum x)" by blast
    from exposant_bounds [OF x0] xpos have "pw2 (exposant x) \<le> x" by simp
    from entier_ge_multiple [OF k this]
    have "pw2 (exposant x) \<le> of_int (entier x) * pw2 (quantum x)" .
    moreover from exposant_bounds [OF c0] pos have "c < pw2 (exposant c + 1)" by simp
    moreover from lt have "pw2 (exposant c + 1) \<le> pw2 (exposant x)" by (rule pw2_mono)
    ultimately show ?thesis by simp
  qed
  show ?thesis
  proof (cases "pw2 1024 \<le> \<bar>of_int (entier x) * pw2 (quantum x)\<bar>")
    case True
    from round64_infini [OF x0 True] xpos show ?thesis by (simp add: x_def)
  next
    case False
    with round64_fini [OF x0] r show ?thesis by (simp add: x_def)
  qed
qed

text \<open>Halving a binary64 number of at least six quanta leaves at least three.\<close>

lemma moitie_valide:
  assumes v: "valide (Fini v)" and six: "6 * pw2 (- 1074) \<le> v"
  shows "\<exists>c. round64 (v * (1 / 2)) = Fini c \<and> valide (Fini c) \<and> 3 * pw2 (- 1074) \<le> c"
proof -
  from six pw2_pos [of "- 1074"] have pos: "0 < v" by (simp add: less_le_trans)
  then have v0: "v \<noteq> 0" by simp
  from valide_forme [OF v v0] have f: "v = of_int (entier v) * pw2 (quantum v)"
    and fin: "\<bar>v\<bar> < pw2 1024" by simp_all
  from exposant_bounds [OF v0] pos have hi: "v < pw2 (exposant v + 1)" by simp
  have q52: "exposant v - 52 \<le> quantum v" by (simp add: quantum_def)
  have "pw2 (exposant v + 1) \<le> pw2 (quantum v + 53)"
    by (rule pw2_mono) (use q52 in simp)
  with hi have "v < pw2 53 * pw2 (quantum v)"
    by (simp add: pw2_add mult.commute)
  with f have "of_int (entier v) * pw2 (quantum v) < pw2 53 * pw2 (quantum v)"
    by (simp only:)
  with pw2_pos [of "quantum v"] have "(of_int (entier v) :: rat) < pw2 53" by simp
  then have "(of_int (entier v) :: rat) < of_int (2 ^ 53)" by (simp add: pw2_def)
  then have n53: "entier v < 2 ^ 53" by (simp only: of_int_less_iff)
  from pos f have "(0::rat) < of_int (entier v) * pw2 (quantum v)" by (simp only:)
  with pw2_pos [of "quantum v"] have "(0::rat) < of_int (entier v)"
    by (simp add: zero_less_mult_iff)
  then have npos: "0 < entier v" by simp
  show ?thesis
  proof (cases "- 1073 \<le> quantum v")
    case True
    have "pw2 (quantum v - 1) = pw2 (quantum v) * (1 / 2)"
      by (simp add: pw2_diff) (simp add: pw2_def)
    with f have "v * (1 / 2) = of_int (entier v) * pw2 (quantum v - 1)"
      by (simp only: mult.assoc)
    moreover from fin pos have "\<bar>v * (1 / 2)\<bar> < pw2 1024" by simp
    ultimately have r: "round64 (v * (1 / 2)) = Fini (v * (1 / 2))"
      using n53 npos True by (intro round64_exact [where m = "entier v" and k = "quantum v - 1"]) simp_all
    then have val: "valide (Fini (v * (1 / 2)))" by (simp only: valide.simps)
    from six have "3 * pw2 (- 1074) \<le> v * (1 / 2)" by simp
    with r val show ?thesis by blast
  next
    case False
    then have q: "quantum v = - 1074" by (simp add: quantum_def max_def split: if_splits)
    from f q have f': "v = of_int (entier v) * pw2 (- 1074)" by (simp only:)
    with six have "6 * pw2 (- 1074) \<le> of_int (entier v) * pw2 (- 1074)" by (simp only:)
    with pw2_pos [of "- 1074"] have "(6::rat) \<le> of_int (entier v)" by simp
    then have n6: "6 \<le> entier v" by linarith
    define n where "n = arrondi_pair (of_int (entier v) / 2)"
    have "(of_int 3 :: rat) \<le> of_int (entier v) / 2" using n6 by simp
    then have n3: "3 \<le> n" unfolding n_def by (rule arrondi_pair_ge)
    have "(of_int (entier v) :: rat) / 2 \<le> of_int (entier v)" using npos by simp
    then have nle: "n \<le> entier v" unfolding n_def by (rule arrondi_pair_le)
    define x where "x = v * (1 / 2)"
    from pos have xpos: "0 < x" and x0: "x \<noteq> 0" by (simp_all add: x_def)
    from pos have "\<bar>x\<bar> \<le> \<bar>v\<bar>" by (simp add: x_def)
    from exposant_mono [OF x0 this] q have qx: "quantum x = - 1074"
      by (simp add: quantum_def max_def split: if_splits)
    have "x = of_int (entier v) / 2 * pw2 (- 1074)"
      unfolding x_def by (subst f') simp
    then have "x / pw2 (- 1074) = of_int (entier v) / 2"
      using pw2_pos [of "- 1074"] by simp
    then have "arrondi_pair (x / pw2 (- 1074)) = n" by (simp only: n_def)
    then have ex: "entier x = n" by (simp only: entier_def qx)
    from nle n3 have "\<bar>of_int n :: rat\<bar> \<le> of_int (entier v)" by simp
    then have "\<bar>of_int n * pw2 (- 1074)\<bar> \<le> of_int (entier v) * pw2 (- 1074)"
      using pw2_pos [of "- 1074"] by (simp add: abs_mult)
    also have "\<dots> = v" using f' by simp
    finally have "\<bar>of_int n * pw2 (- 1074)\<bar> < pw2 1024" using fin pos by simp
    with round64_fini [OF x0] ex qx have r: "round64 x = Fini (of_int n * pw2 (- 1074))" by simp
    from nle n53 n3 have "\<bar>n\<bar> < 2 ^ 53" by simp
    with \<open>\<bar>of_int n * pw2 (- 1074)\<bar> < pw2 1024\<close>
    have "round64 (of_int n * pw2 (- 1074)) = Fini (of_int n * pw2 (- 1074))"
      by (intro round64_exact [where m = n and k = "- 1074"]) simp_all
    then have val: "valide (Fini (of_int n * pw2 (- 1074)))" by (simp only: valide.simps)
    from n3 have "(3::rat) \<le> of_int n" by simp
    then have "3 * pw2 (- 1074) \<le> of_int n * pw2 (- 1074)"
      using pw2_pos [of "- 1074"] by simp
    with r val show ?thesis unfolding x_def by blast
  qed
qed

lemma round64_zero: "round64 0 = Fini 0"
  by (simp add: round64_def)

lemma petit_fini:
  assumes "\<bar>m\<bar> < (2::int) ^ 53"
  shows "\<bar>of_int m :: rat\<bar> < pw2 1024"
proof -
  from assms have "(of_int \<bar>m\<bar> :: rat) < of_int (2 ^ 53)" by (simp only: of_int_less_iff)
  then have "\<bar>of_int m :: rat\<bar> < pw2 53" by (simp add: pw2_def)
  also have "pw2 53 \<le> pw2 1024" by (rule pw2_mono) simp
  finally show ?thesis .
qed

lemma round64_of_int:
  assumes "\<bar>m\<bar> < (2::int) ^ 53"
  shows "round64 (of_int m) = Fini (of_int m)"
proof (rule round64_exact [where m = m and k = 0])
  show "(of_int m :: rat) = of_int m * pw2 0" by (simp add: pw2_def)
  show "\<bar>m\<bar> < 2 ^ 53" by (rule assms)
  show "- 1074 \<le> (0::int)" by simp
  show "\<bar>of_int m :: rat\<bar> < pw2 1024" by (rule petit_fini [OF assms])
qed

lemma round64_numeral:
  "numeral n < (2::int) ^ 53 \<Longrightarrow> round64 (numeral n) = Fini (numeral n)"
  using round64_of_int [of "numeral n"] by (simp only: abs_numeral of_int_numeral)

lemma round64_neg_numeral:
  "numeral n < (2::int) ^ 53 \<Longrightarrow> round64 (- numeral n) = Fini (- numeral n)"
  using round64_of_int [of "- numeral n"]
  by (simp only: abs_minus_cancel abs_numeral of_int_minus of_int_numeral)

lemma round64_one: "round64 1 = Fini 1"
  using round64_of_int [of 1] by simp

lemma tie_1e16_moins: "round64 9999999999999999 = Fini 10000000000000000"
proof -
  have a: "arrondi_pair (9999999999999999 / pw2 (max (53 - 52) (- 1074))) = 5000000000000000"
    by code_simp
  have "round64 9999999999999999
          = Fini (of_int 5000000000000000 * pw2 (max (53 - 52) (- 1074)))"
    by (rule round64_eval [OF _ _ a]) (simp_all add: pw2_def)
  then show ?thesis by (simp add: pw2_def)
qed

lemma tie_1e16_plus: "round64 10000000000000001 = Fini 10000000000000000"
proof -
  have a: "arrondi_pair (10000000000000001 / pw2 (max (53 - 52) (- 1074))) = 5000000000000000"
    by code_simp
  have "round64 10000000000000001
          = Fini (of_int 5000000000000000 * pw2 (max (53 - 52) (- 1074)))"
    by (rule round64_eval [OF _ _ a]) (simp_all add: pw2_def)
  then show ?thesis by (simp add: pw2_def)
qed

lemma valide_1e16: "valide (Fini 10000000000000000)"
proof -
  have "round64 10000000000000000 = Fini 10000000000000000"
    by (rule round64_exact [where m = 152587890625 and k = 16]) (simp_all add: pw2_def)
  then show ?thesis by simp
qed

lemma round64_sous_normal:
  assumes "y \<noteq> 0" and "\<bar>y\<bar> < 2 ^ 53"
  shows "round64 (y * pw2 (- 1074)) = Fini (of_int (arrondi_pair y) * pw2 (- 1074))"
proof -
  define x where "x = y * pw2 (- 1074)"
  from assms(1) pw2_pos [of "- 1074"] have x0: "x \<noteq> 0" by (simp add: x_def)
  have "\<bar>x\<bar> = \<bar>y\<bar> * pw2 (- 1074)"
    using pw2_pos [of "- 1074"] by (simp add: x_def abs_mult)
  also have "\<dots> < 2 ^ 53 * pw2 (- 1074)"
    using assms(2) pw2_pos [of "- 1074"] by simp
  also have "\<dots> = pw2 53 * pw2 (- 1074)" by (simp add: pw2_def)
  also have "\<dots> = pw2 (- 1021)" by (simp add: pw2_add [symmetric])
  finally have "\<bar>x\<bar> < pw2 (- 1021)" .
  with exposant_bounds [OF x0] have "pw2 (exposant x) < pw2 (- 1021)" by simp
  then have "exposant x < - 1021" by (rule pw2_less_cancel)
  then have q: "quantum x = - 1074" by (simp add: quantum_def)
  have "x / pw2 (- 1074) = y" using pw2_pos [of "- 1074"] by (simp add: x_def)
  with q have e: "entier x = arrondi_pair y" by (simp add: entier_def)
  from assms(2) have "y \<le> of_int (2 ^ 53)" and "of_int (- (2 ^ 53)) \<le> y" by simp_all
  then have "arrondi_pair y \<le> 2 ^ 53" and "- (2 ^ 53) \<le> arrondi_pair y"
    using arrondi_pair_le [of y "2 ^ 53"] arrondi_pair_ge [of "- (2 ^ 53)" y] by blast+
  then have "\<bar>arrondi_pair y\<bar> \<le> 2 ^ 53" by simp
  then have "(of_int \<bar>arrondi_pair y\<bar> :: rat) \<le> of_int (2 ^ 53)" by (simp only: of_int_le_iff)
  then have "\<bar>of_int (arrondi_pair y) :: rat\<bar> \<le> pw2 53" by (simp add: pw2_def)
  then have "\<bar>of_int (arrondi_pair y) * pw2 (- 1074)\<bar> \<le> pw2 53 * pw2 (- 1074)"
    using pw2_pos [of "- 1074"] by (simp add: abs_mult)
  also have "\<dots> = pw2 (- 1021)" by (simp add: pw2_add [symmetric])
  also have "\<dots> < pw2 1024" by (rule pw2_strict_mono) simp
  finally have "\<bar>of_int (entier x) * pw2 (quantum x)\<bar> < pw2 1024" by (simp add: e q)
  from round64_fini [OF x0 this]
  have "round64 x = Fini (of_int (arrondi_pair y) * pw2 (- 1074))" by (simp only: e q)
  then show ?thesis by (simp only: x_def)
qed

lemma arrondi_5_2: "arrondi_pair (5 / 2) = 2"
  by code_simp

lemma arrondi_2_4: "arrondi_pair (2 * (5404319552844595 / 4503599627370496)) = 2"
  by code_simp

lemma cinq_quanta:
  "valide (Fini (5 * pw2 (- 1074)))"
  "round64 (5 * pw2 (- 1074) * (1 / 2)) = Fini (2 * pw2 (- 1074))"
  "round64 (2 * pw2 (- 1074) * (5404319552844595 / 4503599627370496)) = Fini (2 * pw2 (- 1074))"
proof -
  have "round64 (5 * pw2 (- 1074)) = Fini (5 * pw2 (- 1074))"
    by (rule round64_exact [where m = 5 and k = "- 1074"])
       (simp_all add: pw2_def)
  then show "valide (Fini (5 * pw2 (- 1074)))" by simp
  have "round64 (5 / 2 * pw2 (- 1074)) = Fini (of_int (arrondi_pair (5 / 2)) * pw2 (- 1074))"
    by (rule round64_sous_normal) simp_all
  then show "round64 (5 * pw2 (- 1074) * (1 / 2)) = Fini (2 * pw2 (- 1074))"
    by (simp add: arrondi_5_2)
  have "round64 (2 * (5404319552844595 / 4503599627370496) * pw2 (- 1074))
          = Fini (of_int (arrondi_pair (2 * (5404319552844595 / 4503599627370496)))
                  * pw2 (- 1074))"
    by (rule round64_sous_normal) simp_all
  then show "round64 (2 * pw2 (- 1074) * (5404319552844595 / 4503599627370496))
               = Fini (2 * pw2 (- 1074))"
    by (simp only: arrondi_2_4 of_int_numeral mult.assoc mult.commute [of "pw2 (- 1074)"])
qed


section \<open>Properties of Stock\<close>

lemma consommer_ingredient_absent:
  "st_ingredients s nom = None \<Longrightarrow> consommer_ingredient nom q s = Inr (False, s)"
  by (simp add: consommer_ingredient_def)

lemma consommer_ingredient_present:
  "st_ingredients s nom = Some v \<Longrightarrow>
   consommer_ingredient nom q s =
     (if float_ge v q
      then Inr (True, s\<lparr>st_ingredients := (st_ingredients s)(nom \<mapsto> float_sub v q)\<rparr>)
      else Inr (False, s))"
  by (simp add: consommer_ingredient_def dict_lire_def)

lemma consommer_ingredient_total:
  "\<exists>ok s'. consommer_ingredient nom q s = Inr (ok, s')"
proof (cases "st_ingredients s nom")
  case None
  then have "consommer_ingredient nom q s = Inr (False, s)"
    by (simp add: consommer_ingredient_absent)
  then show ?thesis by blast
next
  case (Some v)
  then have "consommer_ingredient nom q s
               = Inr (float_ge v q,
                      if float_ge v q
                      then s\<lparr>st_ingredients := (st_ingredients s)(nom \<mapsto> float_sub v q)\<rparr>
                      else s)"
    by (simp add: consommer_ingredient_present)
  then show ?thesis by blast
qed

text \<open>
  Claim C6 as it is stated fails on two points. The quantity recorded after a call that
  succeeds is the float \<^verbatim>\<open>v - quantite\<close>, the difference rounded to binary64, and not
  always the exact difference: with 1e16 in stock, \<^verbatim>\<open>consommer_ingredient("eau", 1.0)\<close>
  returns \<^verbatim>\<open>True\<close> and leaves 1e16. And the call also returns \<^verbatim>\<open>False\<close> for a quantity
  that does not exceed the stock: the guard is \<^verbatim>\<open>v >= quantite\<close>, which is false for NaN.
\<close>

theorem consommer_ingredient_contract_counterexample:
  "valide (Fini 10000000000000000) \<and> valide (Fini 1)
   \<and> consommer_ingredient ''eau'' (Fini 1)
        \<lparr>st_ingredients = [''eau'' \<mapsto> Fini 10000000000000000],
         st_seuils_alerte = [''eau'' \<mapsto> Fini 10]\<rparr>
     = Inr (True, \<lparr>st_ingredients = [''eau'' \<mapsto> Fini 10000000000000000],
                   st_seuils_alerte = [''eau'' \<mapsto> Fini 10]\<rparr>)
   \<and> consommer_ingredient ''eau'' NaN
        \<lparr>st_ingredients = [''eau'' \<mapsto> Fini 100], st_seuils_alerte = [''eau'' \<mapsto> Fini 10]\<rparr>
     = Inr (False, \<lparr>st_ingredients = [''eau'' \<mapsto> Fini 100],
                    st_seuils_alerte = [''eau'' \<mapsto> Fini 10]\<rparr>)"
  using valide_1e16
  by (simp add: consommer_ingredient_def dict_lire_def tie_1e16_moins round64_one)

text \<open>
  Claim C6, amended. For every stock, name and quantity, \<^verbatim>\<open>consommer_ingredient\<close> never
  raises: the result is always an \<open>Inr\<close>. It returns \<^verbatim>\<open>False\<close> and leaves the stock as
  it is when the name is absent or when \<^verbatim>\<open>v >= quantite\<close> is false for the quantity \<open>v\<close>
  recorded (the quantity asked exceeds \<open>v\<close>, or one of the two is NaN). Otherwise it
  returns \<^verbatim>\<open>True\<close> and the stock differs only at the name, which records the float
  \<^verbatim>\<open>v - quantite\<close>: the difference rounded to binary64, which is the exact difference
  whenever the exact difference is a binary64 number.
\<close>

theorem consommer_ingredient_contract:
  "(st_ingredients s nom = None
      \<or> (\<exists>v. st_ingredients s nom = Some v \<and> \<not> float_ge v quantite)
      \<longrightarrow> consommer_ingredient nom quantite s = Inr (False, s))
   \<and> (\<forall>v. st_ingredients s nom = Some v \<and> float_ge v quantite
      \<longrightarrow> consommer_ingredient nom quantite s =
            Inr (True,
                 s\<lparr>st_ingredients := (st_ingredients s)(nom \<mapsto> float_sub v quantite)\<rparr>))
   \<and> (\<forall>x y. st_ingredients s nom = Some (Fini x) \<and> quantite = Fini y \<and> y \<le> x
             \<and> valide (Fini (x - y))
      \<longrightarrow> consommer_ingredient nom quantite s =
            Inr (True, s\<lparr>st_ingredients := (st_ingredients s)(nom \<mapsto> Fini (x - y))\<rparr>))
   \<and> (\<exists>r. consommer_ingredient nom quantite s = Inr r)"
  by (cases "st_ingredients s nom")
     (auto simp: consommer_ingredient_absent consommer_ingredient_present)

text \<open>
  The consumptions of \<^verbatim>\<open>TestStock.test_consommation_ingredient\<close>: 200 of water out of 100
  fails, an unknown name fails, 10 of water out of 100 leaves 90.
\<close>

theorem consommer_ingredient_contract_witness:
  "consommer_ingredient ''eau'' (Fini 200)
      \<lparr>st_ingredients = [''eau'' \<mapsto> Fini 100], st_seuils_alerte = [''eau'' \<mapsto> Fini 10]\<rparr>
     = Inr (False, \<lparr>st_ingredients = [''eau'' \<mapsto> Fini 100],
                    st_seuils_alerte = [''eau'' \<mapsto> Fini 10]\<rparr>)
   \<and> consommer_ingredient ''sel'' (Fini 1)
      \<lparr>st_ingredients = [''eau'' \<mapsto> Fini 100], st_seuils_alerte = [''eau'' \<mapsto> Fini 10]\<rparr>
     = Inr (False, \<lparr>st_ingredients = [''eau'' \<mapsto> Fini 100],
                    st_seuils_alerte = [''eau'' \<mapsto> Fini 10]\<rparr>)
   \<and> consommer_ingredient ''eau'' (Fini 10)
      \<lparr>st_ingredients = [''eau'' \<mapsto> Fini 100], st_seuils_alerte = [''eau'' \<mapsto> Fini 10]\<rparr>
     = Inr (True, \<lparr>st_ingredients = [''eau'' \<mapsto> Fini 90],
                   st_seuils_alerte = [''eau'' \<mapsto> Fini 10]\<rparr>)"
  using consommer_ingredient_contract
          [of "\<lparr>st_ingredients = [''eau'' \<mapsto> Fini 100], st_seuils_alerte = [''eau'' \<mapsto> Fini 10]\<rparr>"
              "''eau''" "Fini 200"]
        consommer_ingredient_contract
          [of "\<lparr>st_ingredients = [''eau'' \<mapsto> Fini 100], st_seuils_alerte = [''eau'' \<mapsto> Fini 10]\<rparr>"
              "''sel''" "Fini 1"]
        consommer_ingredient_contract
          [of "\<lparr>st_ingredients = [''eau'' \<mapsto> Fini 100], st_seuils_alerte = [''eau'' \<mapsto> Fini 10]\<rparr>"
              "''eau''" "Fini 10"]
  by (simp add: round64_numeral)

text \<open>
  Claim C9 as it is stated fails on two points. A stock can record a negative quantity
  (after \<^verbatim>\<open>ajouter_ingredient("eau", -5)\<close>), and then the test \<^verbatim>\<open>-5 >= -1\<close> of
  \<^verbatim>\<open>consommer_ingredient("eau", -1)\<close> is false: the call returns \<^verbatim>\<open>False\<close> and
  changes nothing. And the quantity recorded after a call that succeeds is the difference
  rounded to binary64: with 1e16 in stock, \<^verbatim>\<open>consommer_ingredient("eau", -1.0)\<close> returns
  \<^verbatim>\<open>True\<close> and leaves 1e16, not 1e16 + 1.
\<close>

theorem consommer_negatif_counterexample:
  "consommer_ingredient ''eau'' (Fini (- 1))
      \<lparr>st_ingredients = [''eau'' \<mapsto> Fini (- 5)], st_seuils_alerte = [''eau'' \<mapsto> Fini 10]\<rparr>
     = Inr (False, \<lparr>st_ingredients = [''eau'' \<mapsto> Fini (- 5)],
                    st_seuils_alerte = [''eau'' \<mapsto> Fini 10]\<rparr>)
   \<and> consommer_ingredient ''eau'' (Fini (- 1))
      \<lparr>st_ingredients = [''eau'' \<mapsto> Fini 10000000000000000], st_seuils_alerte = [''eau'' \<mapsto> Fini 10]\<rparr>
     = Inr (True, \<lparr>st_ingredients = [''eau'' \<mapsto> Fini 10000000000000000],
                   st_seuils_alerte = [''eau'' \<mapsto> Fini 10]\<rparr>)"
  by (simp add: consommer_ingredient_def dict_lire_def tie_1e16_plus)

text \<open>
  Claim C9, amended. For every stock that records the float \<open>v\<close> for a name and every
  finite quantity \<open>q \<le> 0\<close> with \<^verbatim>\<open>v >= q\<close> (so for every finite \<open>q \<le> 0\<close> when
  \<open>v \<ge> 0\<close>), \<^verbatim>\<open>consommer_ingredient\<close> returns \<^verbatim>\<open>True\<close> and changes the quantity from
  \<open>v\<close> to the float \<^verbatim>\<open>v - q\<close>, which is never below \<open>v\<close>, and which is the exact
  difference whenever the exact difference is a binary64 number.
\<close>

theorem consommer_negatif:
  assumes "st_ingredients s nom = Some v" and "valide v"
    and "quantite = Fini q" and "q \<le> 0" and "float_ge v quantite"
  shows "consommer_ingredient nom quantite s =
           Inr (True, s\<lparr>st_ingredients := (st_ingredients s)(nom \<mapsto> float_sub v quantite)\<rparr>)
         \<and> float_ge (float_sub v quantite) v
         \<and> (\<forall>x. v = Fini x \<and> valide (Fini (x - q))
               \<longrightarrow> float_sub v quantite = Fini (x - q))"
proof -
  have exact: "\<forall>x. v = Fini x \<and> valide (Fini (x - q))
                 \<longrightarrow> float_sub v quantite = Fini (x - q)"
    using assms(3) by simp
  have "float_ge (float_sub v quantite) v"
  proof (cases v)
    case (Fini x)
    with assms(4) have "x \<le> x - q" by simp
    from round64_ge_valide [OF _ this] assms(2) Fini assms(3) show ?thesis by simp
  next
    case PInf
    with assms(3) show ?thesis by simp
  next
    case MInf
    with assms(3,5) show ?thesis by simp
  next
    case NaN
    with assms(5) show ?thesis by simp
  qed
  with assms(1,5) exact show ?thesis by (simp add: consommer_ingredient_present)
qed

text \<open>With 100 of water in stock, consuming -3 leaves 103.\<close>

theorem consommer_negatif_witness:
  "consommer_ingredient ''eau'' (Fini (- 3))
      \<lparr>st_ingredients = [''eau'' \<mapsto> Fini 100], st_seuils_alerte = [''eau'' \<mapsto> Fini 10]\<rparr>
     = Inr (True, \<lparr>st_ingredients = [''eau'' \<mapsto> Fini 103],
                   st_seuils_alerte = [''eau'' \<mapsto> Fini 10]\<rparr>)
   \<and> float_ge (Fini 103) (Fini 100)"
proof -
  have "valide (Fini 100)" by (simp add: round64_numeral)
  with consommer_negatif
          [of "\<lparr>st_ingredients = [''eau'' \<mapsto> Fini 100], st_seuils_alerte = [''eau'' \<mapsto> Fini 10]\<rparr>"
              "''eau''" "Fini 100" "Fini (- 3)" "- 3"]
  show ?thesis by (simp add: round64_numeral)
qed

lemma float_add_positif:
  "float_ge v (Fini 0) \<Longrightarrow> 0 \<le> q \<Longrightarrow> float_ge (float_add v (Fini q)) (Fini 0)"
  by (cases v) (simp_all add: round64_positif)

lemma float_sub_positif:
  "float_ge v (Fini q) \<Longrightarrow> float_ge v (Fini 0) \<Longrightarrow> float_ge (float_sub v (Fini q)) (Fini 0)"
  by (cases v) (simp_all add: round64_positif)

lemma ajouter_ingredient_positif:
  assumes "\<forall>nom v. st_ingredients s nom = Some v \<longrightarrow> float_ge v (Fini 0)" and "0 \<le> q"
  shows "\<exists>s'. ajouter_ingredient n (Fini q) seuil s = Inr s'
           \<and> (\<forall>nom v. st_ingredients s' nom = Some v \<longrightarrow> float_ge v (Fini 0))"
  using assms
  by (cases "st_ingredients s n")
     (auto simp: ajouter_ingredient_def dict_lire_def float_add_positif)

lemma consommer_ingredient_positif:
  assumes "\<forall>nom v. st_ingredients s nom = Some v \<longrightarrow> float_ge v (Fini 0)"
  shows "\<exists>ok s'. consommer_ingredient n (Fini q) s = Inr (ok, s')
           \<and> (\<forall>nom v. st_ingredients s' nom = Some v \<longrightarrow> float_ge v (Fini 0))"
proof (cases "st_ingredients s n")
  case None
  with assms consommer_ingredient_absent [OF None, of "Fini q"] show ?thesis by blast
next
  case (Some v)
  show ?thesis
  proof (cases "float_ge v (Fini q)")
    case False
    with Some have "consommer_ingredient n (Fini q) s = Inr (False, s)"
      by (simp add: consommer_ingredient_present)
    with assms show ?thesis by blast
  next
    case True
    let ?s' = "s\<lparr>st_ingredients := (st_ingredients s)(n \<mapsto> float_sub v (Fini q))\<rparr>"
    from True Some have c: "consommer_ingredient n (Fini q) s = Inr (True, ?s')"
      by (simp add: consommer_ingredient_present)
    from assms Some have "float_ge v (Fini 0)" by blast
    with True have "float_ge (float_sub v (Fini q)) (Fini 0)" by (rule float_sub_positif)
    with assms have "\<forall>nom w. st_ingredients ?s' nom = Some w \<longrightarrow> float_ge w (Fini 0)"
      by auto
    with c show ?thesis by blast
  qed
qed

lemma executer_appel_positif:
  assumes "\<forall>nom v. st_ingredients s nom = Some v \<longrightarrow> float_ge v (Fini 0)"
    and "ajout_positif a"
  shows "\<exists>s'. executer_appel a s = Inr s'
           \<and> (\<forall>nom v. st_ingredients s' nom = Some v \<longrightarrow> float_ge v (Fini 0))"
proof (cases a)
  case (Ajouter n quantite seuil)
  with assms(2) obtain q where "quantite = Fini q" and "0 \<le> q" by (cases quantite) simp_all
  with Ajouter ajouter_ingredient_positif [OF assms(1), of q n seuil] show ?thesis by simp
next
  case (Consommer n quantite)
  with assms(2) obtain q where q: "quantite = Fini q" by (cases quantite) simp_all
  from consommer_ingredient_positif [OF assms(1), of n q]
  obtain ok s' where "consommer_ingredient n (Fini q) s = Inr (ok, s')"
    and "\<forall>nom v. st_ingredients s' nom = Some v \<longrightarrow> float_ge v (Fini 0)" by blast
  with Consommer q show ?thesis by simp
qed

lemma executer_appels_positif:
  "\<forall>nom v. st_ingredients s nom = Some v \<longrightarrow> float_ge v (Fini 0) \<Longrightarrow>
   list_all ajout_positif appels \<Longrightarrow>
   \<exists>s'. executer_appels appels s = Inr s'
     \<and> (\<forall>nom v. st_ingredients s' nom = Some v \<longrightarrow> float_ge v (Fini 0))"
proof (induction appels arbitrary: s)
  case Nil
  then show ?case by simp
next
  case (Cons a reste)
  from Cons.prems have "ajout_positif a" and reste: "list_all ajout_positif reste" by simp_all
  from executer_appel_positif [OF Cons.prems(1) this(1)]
  obtain s1 where s1: "executer_appel a s = Inr s1"
    and inv: "\<forall>nom v. st_ingredients s1 nom = Some v \<longrightarrow> float_ge v (Fini 0)" by blast
  from Cons.IH [OF inv reste] s1 show ?case by simp
qed

text \<open>
  Claim C3 as it is stated fails: \<^verbatim>\<open>ajouter_ingredient\<close> checks no sign, so
  \<^verbatim>\<open>ajouter_ingredient("eau", -5)\<close> on the empty stock records -5.
\<close>

theorem stock_jamais_negatif_counterexample:
  "executer_appels [Ajouter ''eau'' (Fini (- 5)) (Fini 10)] Stock_init
     = Inr \<lparr>st_ingredients = [''eau'' \<mapsto> Fini (- 5)],
            st_seuils_alerte = [''eau'' \<mapsto> Fini 10]\<rparr>
   \<and> \<not> float_ge (Fini (- 5)) (Fini 0)"
  by (simp add: ajouter_ingredient_def Stock_init_def)

text \<open>
  Claim C3, amended. From the empty stock, every sequence of calls of
  \<^verbatim>\<open>ajouter_ingredient\<close> with finite quantities that are not negative and of
  \<^verbatim>\<open>consommer_ingredient\<close> with any finite quantities runs without an exception and
  leaves a stock in which every recorded quantity is at least zero.
\<close>

theorem stock_jamais_negatif:
  "list_all ajout_positif appels \<Longrightarrow>
   \<exists>s. executer_appels appels Stock_init = Inr s
     \<and> (\<forall>nom v. st_ingredients s nom = Some v \<longrightarrow> float_ge v (Fini 0))"
  by (rule executer_appels_positif) (simp_all add: Stock_init_def)

text \<open>
  A sequence that adds 100, consumes -3, fails to consume 200, adds 0 and consumes 103:
  the stock ends at 0.
\<close>

theorem stock_jamais_negatif_witness:
  "executer_appels
     [Ajouter ''eau'' (Fini 100) (Fini 10), Consommer ''eau'' (Fini (- 3)),
      Consommer ''eau'' (Fini 200), Ajouter ''eau'' (Fini 0) (Fini 10),
      Consommer ''eau'' (Fini 103)] Stock_init
     = Inr \<lparr>st_ingredients = [''eau'' \<mapsto> Fini 0], st_seuils_alerte = [''eau'' \<mapsto> Fini 10]\<rparr>
   \<and> list_all ajout_positif
         [Ajouter ''eau'' (Fini 100) (Fini 10), Consommer ''eau'' (Fini (- 3)),
          Consommer ''eau'' (Fini 200), Ajouter ''eau'' (Fini 0) (Fini 10),
          Consommer ''eau'' (Fini 103)]"
  using stock_jamais_negatif
          [of "[Ajouter ''eau'' (Fini 100) (Fini 10), Consommer ''eau'' (Fini (- 3)),
                Consommer ''eau'' (Fini 200), Ajouter ''eau'' (Fini 0) (Fini 10),
                Consommer ''eau'' (Fini 103)]"]
  by (simp add: ajouter_ingredient_def consommer_ingredient_def dict_lire_def Stock_init_def
        round64_numeral round64_zero)


section \<open>Properties of Eau\<close>

text \<open>
  Claim C8 as it is stated fails: nothing keeps the volume of a drink above zero, and at
  volume 0 the sparkling water and the still water both cost 0. It fails above zero too,
  for the smallest floats, where the two products round to the same float: at the volume
  \<^verbatim>\<open>5 * 2**-1074\<close> both waters cost \<^verbatim>\<open>2 * 2**-1074\<close>. And it fails at an infinite
  volume, where both cost infinity.
\<close>

theorem eau_cout_gazeuse_counterexample:
  "calculer_cout_production (Eau_init ''Eau Plate'' (Fini 0) [] False) = Inr (Fini 0)
   \<and> calculer_cout_production (Eau_init ''Eau Gazeuse'' (Fini 0) [] True) = Inr (Fini 0)
   \<and> \<not> float_lt (Fini 0) (Fini 0)
   \<and> valide (Fini (5 * pw2 (- 1074)))
   \<and> calculer_cout_production (Eau_init ''Eau Plate'' (Fini (5 * pw2 (- 1074))) [] False)
       = Inr (Fini (2 * pw2 (- 1074)))
   \<and> calculer_cout_production (Eau_init ''Eau Gazeuse'' (Fini (5 * pw2 (- 1074))) [] True)
       = Inr (Fini (2 * pw2 (- 1074)))
   \<and> \<not> float_lt (Fini (2 * pw2 (- 1074))) (Fini (2 * pw2 (- 1074)))
   \<and> calculer_cout_production (Eau_init ''Eau Plate'' PInf [] False) = Inr PInf
   \<and> calculer_cout_production (Eau_init ''Eau Gazeuse'' PInf [] True) = Inr PInf
   \<and> \<not> float_lt PInf PInf"
proof -
  have z: "calculer_cout_production (Eau_init ''Eau Plate'' (Fini 0) [] False) = Inr (Fini 0)"
    "calculer_cout_production (Eau_init ''Eau Gazeuse'' (Fini 0) [] True) = Inr (Fini 0)"
    by (simp_all add: calculer_cout_production_def Eau_init_def litteral_1_2 round64_zero)
  have c: "calculer_cout_production (Eau_init ''Eau Plate'' (Fini (5 * pw2 (- 1074))) [] False)
       = Inr (Fini (2 * pw2 (- 1074)))"
    "calculer_cout_production (Eau_init ''Eau Gazeuse'' (Fini (5 * pw2 (- 1074))) [] True)
       = Inr (Fini (2 * pw2 (- 1074)))"
    by (simp_all only: calculer_cout_production_def Eau_init_def boisson.simps classe.simps
          Let_def if_True if_False float_mul.simps litteral_1_2 cinq_quanta)
  have i: "calculer_cout_production (Eau_init ''Eau Plate'' PInf [] False) = Inr PInf"
    "calculer_cout_production (Eau_init ''Eau Gazeuse'' PInf [] True) = Inr PInf"
    by (simp_all add: calculer_cout_production_def Eau_init_def litteral_1_2)
  from z c i cinq_quanta(1) show ?thesis by simp
qed

text \<open>
  Claim C8, amended. For every pair of waters with the same list of ingredients and the
  same volume, a finite float that is at least \<^verbatim>\<open>6 * 2**-1074\<close> (\<^verbatim>\<open>3e-323\<close> in Python),
  the sparkling one costs strictly more than the still one: the cost of the still one is
  the float \<^verbatim>\<open>volume * 0.5\<close>, and the cost of the sparkling one is that float times the
  float \<^verbatim>\<open>1.2\<close>.
\<close>

theorem eau_cout_gazeuse:
  assumes "b_classe gazeuse = Eau True" and "b_classe plate = Eau False"
    and "b_volume gazeuse = b_volume plate" and "b_ingredients gazeuse = b_ingredients plate"
    and "b_volume plate = Fini v" and "valide (Fini v)" and "6 * pw2 (- 1074) \<le> v"
  shows "\<exists>cout_plate cout_gazeuse.
           calculer_cout_production plate = Inr cout_plate
           \<and> calculer_cout_production gazeuse = Inr cout_gazeuse
           \<and> float_lt cout_plate cout_gazeuse
           \<and> cout_plate = float_mul (b_volume plate) (Fini (1 / 2))
           \<and> cout_gazeuse = float_mul cout_plate (round64 (6 / 5))"
proof -
  from moitie_valide [OF assms(6,7)] obtain c where
    c: "round64 (v * (1 / 2)) = Fini c" and vc: "valide (Fini c)" and c3: "3 * pw2 (- 1074) \<le> c"
    by blast
  from assms(5) c have p: "float_mul (b_volume plate) (Fini (1 / 2)) = Fini c" by simp
  from mul_1_2_monte [OF vc c3]
  have lt: "float_lt (Fini c) (float_mul (Fini c) (round64 (6 / 5)))"
    by (simp add: litteral_1_2)
  have "calculer_cout_production plate = Inr (Fini c)"
    using assms(2) p by (simp add: calculer_cout_production_def)
  moreover have "calculer_cout_production gazeuse = Inr (float_mul (Fini c) (round64 (6 / 5)))"
    using assms(1,3) p by (simp add: calculer_cout_production_def)
  ultimately show ?thesis using lt p by simp
qed

text \<open>The two waters of \<^verbatim>\<open>TestBoissons.test_cout_production_eau\<close>, of one litre.\<close>

theorem eau_cout_gazeuse_witness:
  "\<exists>cout_plate cout_gazeuse.
     calculer_cout_production
       (Eau_init ''Eau Plate'' (Fini 1)
          [\<lparr>ing_nom = ''eau'', ing_quantite = round64 (49 / 50), ing_unite = ''L''\<rparr>] False)
       = Inr cout_plate
     \<and> calculer_cout_production
       (Eau_init ''Eau Gazeuse'' (Fini 1)
          [\<lparr>ing_nom = ''eau'', ing_quantite = round64 (49 / 50), ing_unite = ''L''\<rparr>] True)
       = Inr cout_gazeuse
     \<and> float_lt cout_plate cout_gazeuse"
proof -
  have 1: "valide (Fini 1)" by (simp add: round64_one)
  have "pw2 (- 1074) \<le> pw2 (- 3)" by (rule pw2_mono) simp
  then have 2: "6 * pw2 (- 1074) \<le> 1" by (simp add: pw2_def [of "- 3"])
  from eau_cout_gazeuse
         [of "Eau_init ''Eau Gazeuse'' (Fini 1)
                [\<lparr>ing_nom = ''eau'', ing_quantite = round64 (49 / 50), ing_unite = ''L''\<rparr>] True"
             "Eau_init ''Eau Plate'' (Fini 1)
                [\<lparr>ing_nom = ''eau'', ing_quantite = round64 (49 / 50), ing_unite = ''L''\<rparr>] False"
             1] 1 2
  show ?thesis by (simp add: Eau_init_def)
qed

lemma Eau_valider_iff:
  "Eau_valider ings = (\<forall>ing \<in> set ings. lower (ing_nom ing) \<in> set ingredients_valides)"
  by (induction ings) auto

text \<open>
  Claim C4 as it is stated fails: the list of the source holds the three French names
  only, so a water whose ingredients are named \<^verbatim>\<open>water\<close> and \<^verbatim>\<open>minerals\<close> is refused.
\<close>

theorem eau_valider_ingredients_counterexample:
  "\<not> valider_ingredients
       (Eau_init ''Water'' (Fini 1)
          [\<lparr>ing_nom = ''water'', ing_quantite = round64 (49 / 50), ing_unite = ''L''\<rparr>,
           \<lparr>ing_nom = ''minerals'', ing_quantite = round64 (1 / 50), ing_unite = ''L''\<rparr>] False)"
proof -
  have "lower ''water'' = ''water''" by code_simp
  then show ?thesis
    by (simp add: valider_ingredients_def Eau_init_def ingredients_valides_def mineraux_def)
qed

text \<open>
  Claim C4, amended. For every water, \<^verbatim>\<open>valider_ingredients\<close> returns \<^verbatim>\<open>True\<close> exactly
  when the name of every ingredient, in lower case, is one of \<^verbatim>\<open>eau\<close>, \<^verbatim>\<open>mineraux\<close>
  (with its e-acute) and \<^verbatim>\<open>co2\<close>; a water whose ingredients are named \<^verbatim>\<open>eau\<close> and
  \<^verbatim>\<open>mineraux\<close> passes.
\<close>

theorem eau_valider_ingredients:
  "b_classe b = Eau g \<Longrightarrow>
   valider_ingredients b =
     (\<forall>ing \<in> set (b_ingredients b). lower (ing_nom ing) \<in> {''eau'', mineraux, ''co2''})"
  by (simp add: valider_ingredients_def Eau_valider_iff ingredients_valides_def)

text \<open>
  The water of \<^verbatim>\<open>TestBoissons.test_creation_eau\<close>, the second name with capitals to
  exercise \<^verbatim>\<open>lower\<close>.
\<close>

theorem eau_valider_ingredients_witness:
  "valider_ingredients
       (Eau_init ''Eau Minerale'' (Fini 1)
          [\<lparr>ing_nom = ''eau'', ing_quantite = round64 (49 / 50), ing_unite = ''L''\<rparr>,
           \<lparr>ing_nom = ''Min'' @ [CHR 0xC9] @ ''raux'', ing_quantite = round64 (1 / 50),
            ing_unite = ''L''\<rparr>] False)"
proof -
  have "lower ''eau'' = ''eau''" by code_simp
  moreover have "lower (''Min'' @ [CHR 0xC9] @ ''raux'') = mineraux"
    by code_simp
  ultimately show ?thesis
    using eau_valider_ingredients
            [of "Eau_init ''Eau Minerale'' (Fini 1)
                   [\<lparr>ing_nom = ''eau'', ing_quantite = round64 (49 / 50), ing_unite = ''L''\<rparr>,
                    \<lparr>ing_nom = ''Min'' @ [CHR 0xC9] @ ''raux'', ing_quantite = round64 (1 / 50),
                     ing_unite = ''L''\<rparr>] False" False]
    by (simp add: Eau_init_def)
qed


section \<open>Properties of LigneProduction\<close>

lemma executer_etapes_True: "executer_etapes etapes b"
  by (induction etapes) (simp_all add: executer_def)

lemma demarrer_production_inactive:
  "\<not> l_est_active l \<Longrightarrow>
   demarrer_production h l b =
     (True,
      l\<lparr>l_est_active := True,
        l_production_actuelle :=
          Some (definir_lot (h 2) (l_nom l @ ''-'' @ strftime_YmdHMS (h 1)) b),
        l_heure_debut_production := Some (h 0)\<rparr>,
      definir_lot (h 2) (l_nom l @ ''-'' @ strftime_YmdHMS (h 1)) b)"
  by (simp add: demarrer_production_def executer_processus_def executer_etapes_True Let_def)

lemma demarrer_production_active:
  "l_est_active l \<Longrightarrow> demarrer_production h l b = (False, l, b)"
  by (simp add: demarrer_production_def)

lemma terminer_production_demarree:
  assumes "\<not> l_est_active l" and "demarrer_production h l b = (ok, l', b')"
  shows "ok \<and> b' = definir_lot (h 2) (l_nom l @ ''-'' @ strftime_YmdHMS (h 1)) b
         \<and> (\<exists>l''. terminer_production t l' = Inr (Some b', l'') \<and> \<not> l_est_active l''
                \<and> length (l_historique_production l'')
                    = length (l_historique_production l) + 1)"
  using assms by (auto simp: demarrer_production_inactive terminer_production_def)

text \<open>
  Claim C7. For every line and drink: if \<^verbatim>\<open>demarrer_production\<close> returns \<^verbatim>\<open>True\<close>, the
  drink has a lot number and the line is active, and \<^verbatim>\<open>terminer_production\<close> called next
  returns without an exception and leaves the line inactive, with no current drink and
  with a history exactly one record longer. If the line is already active,
  \<^verbatim>\<open>demarrer_production\<close> returns \<^verbatim>\<open>False\<close> and changes neither the line nor the drink.
\<close>

theorem ligne_demarrer_terminer:
  "demarrer_production h l b = (ok, l', b') \<Longrightarrow>
   (ok \<longrightarrow> b_numero_lot b' \<noteq> None \<and> l_est_active l'
      \<and> (\<exists>boisson_produite l''.
            terminer_production t l' = Inr (boisson_produite, l'')
            \<and> \<not> l_est_active l'' \<and> l_production_actuelle l'' = None
            \<and> length (l_historique_production l'')
                = length (l_historique_production l') + 1))
   \<and> (l_est_active l \<longrightarrow> \<not> ok \<and> l' = l \<and> b' = b)"
proof (cases "l_est_active l")
  case True
  assume "demarrer_production h l b = (ok, l', b')"
  with True show ?thesis by (simp add: demarrer_production_active)
next
  case False
  assume "demarrer_production h l b = (ok, l', b')"
  with False show ?thesis
    by (auto simp: demarrer_production_inactive definir_lot_def terminer_production_def)
qed

text \<open>
  The line and the water of \<^verbatim>\<open>TestLigneProduction\<close>: the start succeeds on the idle
  line, and fails without effect on the same line marked active.
\<close>

theorem ligne_demarrer_terminer_witness:
  "fst (demarrer_production horloge_test ligne_test eau_test)
   \<and> b_numero_lot (snd (snd (demarrer_production horloge_test ligne_test eau_test))) \<noteq> None
   \<and> l_est_active (fst (snd (demarrer_production horloge_test ligne_test eau_test)))
   \<and> l_est_active (ligne_test\<lparr>l_est_active := True\<rparr>)
   \<and> \<not> fst (demarrer_production horloge_test (ligne_test\<lparr>l_est_active := True\<rparr>) eau_test)
   \<and> fst (snd (demarrer_production horloge_test (ligne_test\<lparr>l_est_active := True\<rparr>) eau_test))
       = ligne_test\<lparr>l_est_active := True\<rparr>
   \<and> snd (snd (demarrer_production horloge_test (ligne_test\<lparr>l_est_active := True\<rparr>) eau_test))
       = eau_test"
proof -
  have ok: "fst (demarrer_production horloge_test ligne_test eau_test)"
    by (simp add: demarrer_production_inactive ligne_test_def LigneProduction_init_def)
  have eq: "demarrer_production horloge_test ligne_test eau_test
              = (fst (demarrer_production horloge_test ligne_test eau_test),
                 fst (snd (demarrer_production horloge_test ligne_test eau_test)),
                 snd (snd (demarrer_production horloge_test ligne_test eau_test)))"
    by simp
  have eq2: "demarrer_production horloge_test (ligne_test\<lparr>l_est_active := True\<rparr>) eau_test
    = (fst (demarrer_production horloge_test (ligne_test\<lparr>l_est_active := True\<rparr>) eau_test),
       fst (snd (demarrer_production horloge_test (ligne_test\<lparr>l_est_active := True\<rparr>) eau_test)),
       snd (snd (demarrer_production horloge_test (ligne_test\<lparr>l_est_active := True\<rparr>) eau_test)))"
    by simp
  have act: "l_est_active (ligne_test\<lparr>l_est_active := True\<rparr>)" by simp
  from ligne_demarrer_terminer [OF eq, of "horloge_test 3"] ok
  have "b_numero_lot (snd (snd (demarrer_production horloge_test ligne_test eau_test))) \<noteq> None
        \<and> l_est_active (fst (snd (demarrer_production horloge_test ligne_test eau_test)))"
    by blast
  moreover from ligne_demarrer_terminer [OF eq2, of "horloge_test 3"] act
  have "\<not> fst (demarrer_production horloge_test (ligne_test\<lparr>l_est_active := True\<rparr>) eau_test)
   \<and> fst (snd (demarrer_production horloge_test (ligne_test\<lparr>l_est_active := True\<rparr>) eau_test))
       = ligne_test\<lparr>l_est_active := True\<rparr>
   \<and> snd (snd (demarrer_production horloge_test (ligne_test\<lparr>l_est_active := True\<rparr>) eau_test))
       = eau_test"
    by blast
  ultimately show ?thesis using ok act by blast
qed


section \<open>Properties of Usine\<close>

lemma verifier_disponibilite_eq:
  "verifier_disponibilite s ings =
     Inr (list_all (\<lambda>ing. case st_ingredients s (ing_nom ing) of
                             None \<Rightarrow> False
                           | Some v \<Rightarrow> \<not> float_lt v (ing_quantite ing)) ings)"
  by (induction ings) (auto simp: dict_lire_def split: option.splits)

lemma consommer_ingredients_total:
  "\<exists>ok s'. consommer_ingredients ings s = Inr (ok, s')"
proof (induction ings arbitrary: s)
  case Nil
  have "consommer_ingredients [] s = Inr (True, s)" by simp
  then show ?case by blast
next
  case (Cons ing reste)
  obtain ok s1 where c: "consommer_ingredient (ing_nom ing) (ing_quantite ing) s = Inr (ok, s1)"
    using consommer_ingredient_total by blast
  show ?case
  proof (cases ok)
    case True
    from Cons.IH [of s1] obtain ok' s' where "consommer_ingredients reste s1 = Inr (ok', s')"
      by blast
    with c True have "consommer_ingredients (ing # reste) s = Inr (ok', s')" by simp
    then show ?thesis by blast
  next
    case False
    with c have "consommer_ingredients (ing # reste) s = Inr (False, s1)" by simp
    then show ?thesis by blast
  qed
qed

lemma ligne_disponible_None:
  "(ligne_disponible lignes = None) = list_all l_est_active lignes"
  by (induction lignes) auto

lemma ligne_disponible_Some:
  "ligne_disponible lignes = Some (i, ligne) \<Longrightarrow>
   i < length lignes \<and> lignes ! i = ligne \<and> \<not> l_est_active ligne"
proof (induction lignes arbitrary: i)
  case Nil
  then show ?case by simp
next
  case (Cons l reste)
  show ?case
  proof (cases "l_est_active l")
    case False
    with Cons.prems show ?thesis by auto
  next
    case True
    with Cons.prems obtain j where "ligne_disponible reste = Some (j, ligne)" and "i = Suc j"
      by (auto split: prod.splits)
    with Cons.IH [of j] show ?thesis by simp
  qed
qed

lemma ligne_disponible_existe:
  "\<not> list_all l_est_active lignes \<Longrightarrow> \<exists>i ligne. ligne_disponible lignes = Some (i, ligne)"
  by (cases "ligne_disponible lignes") (auto simp: ligne_disponible_None)

lemma list_all_update:
  "list_all P xs \<Longrightarrow> P x \<Longrightarrow> list_all P (xs[i := x])"
  by (induction xs arbitrary: i) (auto split: nat.splits)


lemma produire_boisson_indisponible:
  "verifier_disponibilite (u_stock u) (b_ingredients b) = Inr False \<Longrightarrow>
   produire_boisson h u b = Inr (False, u, b)"
  by (simp add: produire_boisson_def)

lemma produire_boisson_sans_ligne:
  "list_all l_est_active (u_lignes_production u) \<Longrightarrow>
   produire_boisson h u b = Inr (False, u, b)"
proof -
  assume "list_all l_est_active (u_lignes_production u)"
  then have "ligne_disponible (u_lignes_production u) = None"
    by (simp add: ligne_disponible_None)
  then show ?thesis
    by (simp add: produire_boisson_def verifier_disponibilite_eq)
qed

lemma produire_boisson_non_consomme:
  "verifier_disponibilite (u_stock u) (b_ingredients b) = Inr True \<Longrightarrow>
   ligne_disponible (u_lignes_production u) = Some (i, ligne) \<Longrightarrow>
   consommer_ingredients (b_ingredients b) (u_stock u) = Inr (False, s') \<Longrightarrow>
   produire_boisson h u b = Inr (False, u\<lparr>u_stock := s'\<rparr>, b)"
  by (simp add: produire_boisson_def)

lemma produire_boisson_succes:
  assumes "verifier_disponibilite (u_stock u) (b_ingredients b) = Inr True"
    and "ligne_disponible (u_lignes_production u) = Some (i, ligne)"
    and "consommer_ingredients (b_ingredients b) (u_stock u) = Inr (True, s')"
  shows "\<exists>l''. produire_boisson h u b =
           Inr (True,
                u\<lparr>u_stock := s',
                  u_lignes_production := (u_lignes_production u)[i := l''],
                  u_production_journaliere :=
                    u_production_journaliere u
                      @ [definir_lot (h 2) (l_nom ligne @ ''-'' @ strftime_YmdHMS (h 1)) b]\<rparr>,
                definir_lot (h 2) (l_nom ligne @ ''-'' @ strftime_YmdHMS (h 1)) b)
         \<and> \<not> l_est_active l''"
proof -
  from ligne_disponible_Some [OF assms(2)] have inactive: "\<not> l_est_active ligne" by simp
  obtain ok l' b' where d: "demarrer_production h ligne b = (ok, l', b')"
    by (cases "demarrer_production h ligne b") auto
  from terminer_production_demarree [OF inactive d, of "h 3"]
  obtain l'' where ok
    and b': "b' = definir_lot (h 2) (l_nom ligne @ ''-'' @ strftime_YmdHMS (h 1)) b"
    and t: "terminer_production (h 3) l' = Inr (Some b', l'')" and l'': "\<not> l_est_active l''"
    by blast
  have "produire_boisson h u b =
           Inr (True,
                u\<lparr>u_stock := s',
                  u_lignes_production := (u_lignes_production u)[i := l''],
                  u_production_journaliere := u_production_journaliere u @ [b']\<rparr>,
                b')"
    using assms d t \<open>ok\<close> by (simp add: produire_boisson_def)
  with b' l'' show ?thesis by blast
qed

lemma eau_mineraux: "''eau'' \<noteq> mineraux"
  by (simp add: mineraux_def)

text \<open>
  Claim C2. For every factory and every drink, if \<^verbatim>\<open>verifier_disponibilite\<close> fails on the
  ingredients of the drink, or if every line is active, then \<^verbatim>\<open>produire_boisson\<close> returns
  \<^verbatim>\<open>False\<close> and the factory after the call is the factory before it (the stock, every line
  with its state and history, the daily production), and the drink is unchanged.
\<close>

theorem produire_echec_sans_mutation:
  "verifier_disponibilite (u_stock u) (b_ingredients b) = Inr False
     \<or> list_all l_est_active (u_lignes_production u) \<Longrightarrow>
   produire_boisson h u b = Inr (False, u, b)"
  using produire_boisson_indisponible produire_boisson_sans_ligne by blast

text \<open>
  The water of \<^verbatim>\<open>TestUsine.test_production_boisson_stock_insuffisant\<close>, which asks 200
  of water out of 100; and the water of the tests on the same factory with its one line
  marked active.
\<close>

theorem produire_echec_sans_mutation_witness:
  "produire_boisson horloge_test usine_test
      (Eau_init ''Eau Test'' (Fini 1)
         [\<lparr>ing_nom = ''eau'', ing_quantite = Fini 200, ing_unite = ''L''\<rparr>] False)
     = Inr (False, usine_test,
            Eau_init ''Eau Test'' (Fini 1)
              [\<lparr>ing_nom = ''eau'', ing_quantite = Fini 200, ing_unite = ''L''\<rparr>] False)
   \<and> produire_boisson horloge_test
        (usine_test\<lparr>u_lignes_production := [ligne_test\<lparr>l_est_active := True\<rparr>]\<rparr>) eau_test
     = Inr (False, usine_test\<lparr>u_lignes_production := [ligne_test\<lparr>l_est_active := True\<rparr>]\<rparr>,
            eau_test)"
proof -
  have "verifier_disponibilite (u_stock usine_test)
          (b_ingredients (Eau_init ''Eau Test'' (Fini 1)
             [\<lparr>ing_nom = ''eau'', ing_quantite = Fini 200, ing_unite = ''L''\<rparr>] False)) = Inr False"
    by (simp add: usine_test_def Eau_init_def dict_lire_def eau_mineraux)
  moreover have "list_all l_est_active
      (u_lignes_production (usine_test\<lparr>u_lignes_production := [ligne_test\<lparr>l_est_active := True\<rparr>]\<rparr>))"
    by simp
  ultimately show ?thesis
    using produire_echec_sans_mutation
            [of usine_test "Eau_init ''Eau Test'' (Fini 1)
               [\<lparr>ing_nom = ''eau'', ing_quantite = Fini 200, ing_unite = ''L''\<rparr>] False" horloge_test]
          produire_echec_sans_mutation
            [of "usine_test\<lparr>u_lignes_production := [ligne_test\<lparr>l_est_active := True\<rparr>]\<rparr>"
                eau_test horloge_test]
    by blast
qed

text \<open>
  Claim C10. If every line of a factory is idle before a call of \<^verbatim>\<open>produire_boisson\<close>,
  the call returns without an exception and every line is idle after it, whatever the
  boolean returned: \<^verbatim>\<open>EtapeProduction.executer\<close> always returns \<^verbatim>\<open>True\<close>, so
  \<^verbatim>\<open>demarrer_production\<close> on the idle line chosen succeeds and \<^verbatim>\<open>terminer_production\<close>
  follows it.
\<close>

theorem lignes_inactives_apres_production:
  assumes "list_all (\<lambda>l. \<not> l_est_active l) (u_lignes_production u)"
  shows "\<exists>ok u' b'. produire_boisson h u b = Inr (ok, u', b')
           \<and> list_all (\<lambda>l. \<not> l_est_active l) (u_lignes_production u')"
proof (cases "verifier_disponibilite (u_stock u) (b_ingredients b) = Inr True")
  case False
  then have "verifier_disponibilite (u_stock u) (b_ingredients b) = Inr False"
    by (simp add: verifier_disponibilite_eq)
  then have "produire_boisson h u b = Inr (False, u, b)"
    by (rule produire_boisson_indisponible)
  with assms show ?thesis by blast
next
  case True
  note dispo = this
  show ?thesis
  proof (cases "ligne_disponible (u_lignes_production u)")
    case None
    then have "produire_boisson h u b = Inr (False, u, b)"
      by (simp add: produire_boisson_sans_ligne ligne_disponible_None)
    with assms show ?thesis by blast
  next
    case (Some p)
    then obtain i ligne where ligne: "ligne_disponible (u_lignes_production u) = Some (i, ligne)"
      by (cases p) auto
    obtain ok s' where conso: "consommer_ingredients (b_ingredients b) (u_stock u) = Inr (ok, s')"
      using consommer_ingredients_total by blast
    show ?thesis
    proof (cases ok)
      case False
      with produire_boisson_non_consomme [OF dispo ligne] conso
      have "produire_boisson h u b = Inr (False, u\<lparr>u_stock := s'\<rparr>, b)" by simp
      moreover have "list_all (\<lambda>l. \<not> l_est_active l) (u_lignes_production (u\<lparr>u_stock := s'\<rparr>))"
        using assms by simp
      ultimately show ?thesis by blast
    next
      case True
      with produire_boisson_succes [OF dispo ligne, of s' h] conso
      obtain l'' u' b' where p: "produire_boisson h u b = Inr (True, u', b')"
        and u': "u_lignes_production u' = (u_lignes_production u)[i := l'']"
        and l'': "\<not> l_est_active l''"
        by auto
      from assms l'' have "list_all (\<lambda>l. \<not> l_est_active l) ((u_lignes_production u)[i := l''])"
        by (rule list_all_update)
      with p u' show ?thesis by auto
    qed
  qed
qed

theorem lignes_inactives_apres_production_witness:
  "list_all (\<lambda>l. \<not> l_est_active l) (u_lignes_production usine_test)
   \<and> (\<exists>ok u' b'. produire_boisson horloge_test usine_test eau_test = Inr (ok, u', b')
          \<and> list_all (\<lambda>l. \<not> l_est_active l) (u_lignes_production u'))"
proof -
  have "list_all (\<lambda>l. \<not> l_est_active l) (u_lignes_production usine_test)"
    by (simp add: usine_test_def ligne_test_def LigneProduction_init_def)
  with lignes_inactives_apres_production [of usine_test horloge_test eau_test]
  show ?thesis by blast
qed

lemma consommer_eau_mineraux:
  assumes stock: "st_ingredients s = [''eau'' \<mapsto> Fini 100, mineraux \<mapsto> Fini 50]"
    and ings: "map (\<lambda>ing. (ing_nom ing, ing_quantite ing)) ings = [(''eau'', Fini 10), (mineraux, Fini 5)]
             \<or> map (\<lambda>ing. (ing_nom ing, ing_quantite ing)) ings = [(mineraux, Fini 5), (''eau'', Fini 10)]"
  shows "verifier_disponibilite s ings = Inr True
         \<and> consommer_ingredients ings s
             = Inr (True, s\<lparr>st_ingredients := [''eau'' \<mapsto> Fini 90, mineraux \<mapsto> Fini 45]\<rparr>)"
  using ings
proof
  assume "map (\<lambda>ing. (ing_nom ing, ing_quantite ing)) ings = [(''eau'', Fini 10), (mineraux, Fini 5)]"
  then obtain i1 i2 where b: "ings = [i1, i2]"
    and i1: "ing_nom i1 = ''eau''" "ing_quantite i1 = Fini 10"
    and i2: "ing_nom i2 = mineraux" "ing_quantite i2 = Fini 5"
    by auto
  have "verifier_disponibilite s ings = Inr True"
    using b i1 i2 stock eau_mineraux by (simp add: verifier_disponibilite_eq)
  moreover have "consommer_ingredients ings s
                 = Inr (True, s\<lparr>st_ingredients := [''eau'' \<mapsto> Fini 90, mineraux \<mapsto> Fini 45]\<rparr>)"
    using b i1 i2 stock eau_mineraux
    by (simp add: consommer_ingredient_def dict_lire_def round64_numeral)
  ultimately show ?thesis by simp
next
  assume "map (\<lambda>ing. (ing_nom ing, ing_quantite ing)) ings = [(mineraux, Fini 5), (''eau'', Fini 10)]"
  then obtain i1 i2 where b: "ings = [i1, i2]"
    and i1: "ing_nom i1 = mineraux" "ing_quantite i1 = Fini 5"
    and i2: "ing_nom i2 = ''eau''" "ing_quantite i2 = Fini 10"
    by auto
  have twist: "[''eau'' \<mapsto> Fini 100, mineraux \<mapsto> Fini 45, ''eau'' \<mapsto> Fini 90]
                 = [''eau'' \<mapsto> Fini 90, mineraux \<mapsto> Fini 45]"
    using eau_mineraux by (auto simp: fun_eq_iff)
  have "verifier_disponibilite s ings = Inr True"
    using b i1 i2 stock eau_mineraux by (simp add: verifier_disponibilite_eq)
  moreover have "consommer_ingredients ings s
                 = Inr (True, s\<lparr>st_ingredients := [''eau'' \<mapsto> Fini 90, mineraux \<mapsto> Fini 45]\<rparr>)"
    using b i1 i2 stock eau_mineraux twist
    by (simp add: consommer_ingredient_def dict_lire_def round64_numeral)
  ultimately show ?thesis by simp
qed

text \<open>
  Claim C1. For a factory with an idle line (one idle line in particular), the stock
  \<^verbatim>\<open>{eau: 100, mineraux: 50}\<close> and an empty daily production, \<^verbatim>\<open>produire_boisson\<close> on a
  water whose ingredients are 10 of \<^verbatim>\<open>eau\<close> and 5 of \<^verbatim>\<open>mineraux\<close>, in either order,
  returns \<^verbatim>\<open>True\<close>, leaves the stock at exactly \<^verbatim>\<open>{eau: 90, mineraux: 45}\<close> and leaves a
  daily production of length 1.
\<close>

theorem production_reussie:
  assumes lignes: "\<not> list_all l_est_active (u_lignes_production u)"
    and stock: "st_ingredients (u_stock u) = [''eau'' \<mapsto> Fini 100, mineraux \<mapsto> Fini 50]"
    and journal: "u_production_journaliere u = []"
    and eau: "b_classe b = Eau g"
    and ings: "map (\<lambda>ing. (ing_nom ing, ing_quantite ing)) (b_ingredients b)
                 = [(''eau'', Fini 10), (mineraux, Fini 5)]
             \<or> map (\<lambda>ing. (ing_nom ing, ing_quantite ing)) (b_ingredients b)
                 = [(mineraux, Fini 5), (''eau'', Fini 10)]"
  shows "\<exists>u' b'. produire_boisson h u b = Inr (True, u', b')
           \<and> st_ingredients (u_stock u') = [''eau'' \<mapsto> Fini 90, mineraux \<mapsto> Fini 45]
           \<and> length (u_production_journaliere u') = 1"
proof -
  from consommer_eau_mineraux [OF stock ings]
  have dispo: "verifier_disponibilite (u_stock u) (b_ingredients b) = Inr True"
    and conso: "consommer_ingredients (b_ingredients b) (u_stock u)
                 = Inr (True, u_stock u\<lparr>st_ingredients := [''eau'' \<mapsto> Fini 90, mineraux \<mapsto> Fini 45]\<rparr>)"
    by simp_all
  from ligne_disponible_existe [OF lignes] obtain i ligne where
    ligne: "ligne_disponible (u_lignes_production u) = Some (i, ligne)"
    by blast
  from produire_boisson_succes [OF dispo ligne conso, of h] journal
  show ?thesis by auto
qed

text \<open>The factory and the water of \<^verbatim>\<open>TestUsine.test_production_boisson_reussie\<close>.\<close>

theorem production_reussie_witness:
  "\<exists>u' b'. produire_boisson horloge_test usine_test
              (Eau_init ''Eau Test'' (Fini 1)
                 [\<lparr>ing_nom = ''eau'', ing_quantite = Fini 10, ing_unite = ''L''\<rparr>,
                  \<lparr>ing_nom = mineraux, ing_quantite = Fini 5, ing_unite = ''L''\<rparr>] False)
              = Inr (True, u', b')
           \<and> st_ingredients (u_stock u') = [''eau'' \<mapsto> Fini 90, mineraux \<mapsto> Fini 45]
           \<and> length (u_production_journaliere u') = 1"
proof -
  have 1: "\<not> list_all l_est_active (u_lignes_production usine_test)"
    by (simp add: usine_test_def ligne_test_def LigneProduction_init_def)
  have 2: "st_ingredients (u_stock usine_test) = [''eau'' \<mapsto> Fini 100, mineraux \<mapsto> Fini 50]"
    and 3: "u_production_journaliere usine_test = []"
    by (simp_all add: usine_test_def)
  have 4: "b_classe (Eau_init ''Eau Test'' (Fini 1)
                 [\<lparr>ing_nom = ''eau'', ing_quantite = Fini 10, ing_unite = ''L''\<rparr>,
                  \<lparr>ing_nom = mineraux, ing_quantite = Fini 5, ing_unite = ''L''\<rparr>] False) = Eau False"
    by (simp add: Eau_init_def)
  have 5: "map (\<lambda>ing. (ing_nom ing, ing_quantite ing))
           (b_ingredients (Eau_init ''Eau Test'' (Fini 1)
                 [\<lparr>ing_nom = ''eau'', ing_quantite = Fini 10, ing_unite = ''L''\<rparr>,
                  \<lparr>ing_nom = mineraux, ing_quantite = Fini 5, ing_unite = ''L''\<rparr>] False))
           = [(''eau'', Fini 10), (mineraux, Fini 5)]
         \<or> map (\<lambda>ing. (ing_nom ing, ing_quantite ing))
           (b_ingredients (Eau_init ''Eau Test'' (Fini 1)
                 [\<lparr>ing_nom = ''eau'', ing_quantite = Fini 10, ing_unite = ''L''\<rparr>,
                  \<lparr>ing_nom = mineraux, ing_quantite = Fini 5, ing_unite = ''L''\<rparr>] False))
           = [(mineraux, Fini 5), (''eau'', Fini 10)]"
    by (simp add: Eau_init_def)
  from production_reussie [OF 1 2 3 4 5] show ?thesis .
qed


section \<open>Two productions and the statistics\<close>







end
